theory Spec2Isabelle
  imports Complex_Main
begin

section \<open>Exceptions\<close>

text \<open>
  The exceptions of \<^verbatim>\<open>beatbrain/utils.py\<close> and of the numpy and librosa calls it makes.
  A function that can raise returns \<open>error + 'a\<close>, with \<open>Inl\<close> for the exception.
  \<open>ValueError\<close> carries a short tag for the place that raised it.
\<close>

datatype error =
    ValueError string
  | ZeroDivisionError
  | ParameterError
  | LibraryError string

definition ebind :: "error + 'a \<Rightarrow> ('a \<Rightarrow> error + 'b) \<Rightarrow> error + 'b" where
  "ebind m f = (case m of Inl e \<Rightarrow> Inl e | Inr x \<Rightarrow> f x)"

section \<open>Two-dimensional arrays\<close>

text \<open>
  A 2-D numpy array of shape \<open>(length (rows a), ncols a)\<close>. The width is kept beside the
  rows so that the shapes \<open>(0, w)\<close> exist too. \<open>wf\<close> says that the rows have that width.
\<close>

datatype 'a ndarray = NDArray (ncols: nat) (rows: "'a list list")

definition nrows :: "'a ndarray \<Rightarrow> nat" where
  "nrows a = length (rows a)"

definition wf :: "'a ndarray \<Rightarrow> bool" where
  "wf a = list_all (\<lambda>r. length r = ncols a) (rows a)"

text \<open>
  Python's slice \<^verbatim>\<open>[:stop]\<close> on a sequence of length \<open>n\<close>: a negative stop counts from
  the end and is clipped at 0, a non-negative one is clipped at \<open>n\<close>.
\<close>

definition py_stop :: "int \<Rightarrow> nat \<Rightarrow> nat" where
  "py_stop stop n = (if stop < 0 then nat (max 0 (stop + int n)) else min (nat stop) n)"

text \<open>\<^verbatim>\<open>spec[:, :stop]\<close>\<close>

definition slice_cols_to :: "'a ndarray \<Rightarrow> int \<Rightarrow> 'a ndarray" where
  "slice_cols_to spec stop =
     (let k = py_stop stop (ncols spec) in NDArray k (map (take k) (rows spec)))"

text \<open>
  \<^verbatim>\<open>np.pad(spec, ((0, 0), (0, k)), mode='constant')\<close>: \<open>k\<close> zeros after every row;
  numpy raises ValueError on a negative pad width.
\<close>

definition np_pad_right :: "'a::zero ndarray \<Rightarrow> int \<Rightarrow> error + 'a ndarray" where
  "np_pad_right spec k =
     (if k < 0 then Inl (ValueError ''pad'')
      else Inr (NDArray (ncols spec + nat k) (map (\<lambda>r. r @ replicate (nat k) 0) (rows spec))))"

text \<open>The columns \<open>i ..< i + w\<close> of an array.\<close>

definition col_block :: "'a ndarray \<Rightarrow> nat \<Rightarrow> nat \<Rightarrow> 'a ndarray" where
  "col_block a i w = NDArray w (map (\<lambda>r. take w (drop i r)) (rows a))"

text \<open>
  \<^verbatim>\<open>np.split(ary, sections, axis=1)\<close> with an integer \<open>sections\<close>: numpy first computes
  \<^verbatim>\<open>N % sections\<close> on Python integers (ZeroDivisionError when \<open>sections\<close> is 0), raises
  ValueError when the division is not exact, and \<^verbatim>\<open>array_split\<close> raises ValueError when
  \<open>sections\<close> is not positive. Otherwise the result is \<open>sections\<close> blocks of equal width.
\<close>

definition np_split :: "'a ndarray \<Rightarrow> int \<Rightarrow> error + 'a ndarray list" where
  "np_split ary sections =
     (if sections = 0 then Inl ZeroDivisionError
      else if int (ncols ary) mod sections \<noteq> 0 then Inl (ValueError ''split'')
      else if sections \<le> 0 then Inl (ValueError ''sections'')
      else (let w = ncols ary div nat sections
            in Inr (map (\<lambda>j. col_block ary (j * w) w) [0 ..< nat sections])))"

text \<open>
  \<^verbatim>\<open>np.concatenate(chunks, axis=-1)\<close>: ValueError on an empty list and when the chunks
  differ in their number of rows; otherwise the rows are joined chunk after chunk.
\<close>

definition hcat :: "'a ndarray \<Rightarrow> 'a ndarray \<Rightarrow> 'a ndarray" where
  "hcat a b = NDArray (ncols a + ncols b) (map2 (@) (rows a) (rows b))"

definition np_concatenate :: "'a ndarray list \<Rightarrow> error + 'a ndarray" where
  "np_concatenate chunks =
     (case chunks of
        [] \<Rightarrow> Inl (ValueError ''concatenate'')
      | c # cs \<Rightarrow>
          if list_all (\<lambda>d. nrows d = nrows c) cs then Inr (foldl hcat c cs)
          else Inl (ValueError ''concatenate''))"

section \<open>Fixed-length chunking\<close>

text \<open>
  \<^verbatim>\<open>spec_to_chunks(spec, chunk_size, truncate)\<close>. \<open>chunk_size\<close> is a Python integer;
  \<^verbatim>\<open>%\<close> raises ZeroDivisionError on 0 and, like \<^verbatim>\<open>//\<close>, rounds towards minus infinity, as
  \<open>mod\<close> and \<open>div\<close> on \<open>int\<close> do.
\<close>

definition spec_to_chunks :: "'a::zero ndarray \<Rightarrow> int \<Rightarrow> bool \<Rightarrow> error + 'a ndarray list" where
  "spec_to_chunks spec chunk_size truncate =
     (if int (ncols spec) \<ge> chunk_size then
        (if chunk_size = 0 then Inl ZeroDivisionError
         else
           (let remainder = int (ncols spec) mod chunk_size in
            ebind (if truncate then Inr (slice_cols_to spec (- remainder))
                   else np_pad_right spec (chunk_size - remainder))
              (\<lambda>spec'. np_split spec' (int (ncols spec') div chunk_size))))
      else Inr [spec])"

text \<open>
  The reassembly step of \<^verbatim>\<open>convert_numpy_to_audio\<close>:
  \<^verbatim>\<open>spec = np.concatenate(chunks, axis=-1)\<close>.
\<close>

definition reassemble :: "'a ndarray list \<Rightarrow> error + 'a ndarray" where
  "reassemble chunks = np_concatenate chunks"

text \<open>
  The two notions the description of reassembly uses: an array padded with zeros on the
  right to width \<open>W\<close>, and the smallest multiple of \<open>c\<close> that is at least \<open>w\<close>.
\<close>

definition zero_pad_to :: "'a::zero ndarray \<Rightarrow> nat \<Rightarrow> 'a ndarray" where
  "zero_pad_to spec W = NDArray W (map (\<lambda>r. r @ replicate (W - ncols spec) 0) (rows spec))"

definition next_multiple :: "nat \<Rightarrow> int \<Rightarrow> nat" where
  "next_multiple w c = nat ((int w + c - 1) div c * c)"

section \<open>Floating-point values and elementwise operations\<close>

text \<open>
  Finite floating-point values are modelled by real numbers, with exact arithmetic. What a
  numpy division gives on a zero divisor is kept apart: it raises nothing (numpy only
  warns) and yields an infinity or NaN.
\<close>

datatype npfloat = Fin real | PosInf | NegInf | NaN

instantiation npfloat :: zero
begin

definition zero_npfloat :: npfloat where
  "zero_npfloat = Fin 0"

instance ..

end

definition np_divide :: "real \<Rightarrow> real \<Rightarrow> npfloat" where
  "np_divide x y =
     (if y \<noteq> 0 then Fin (x / y)
      else if 0 < x then PosInf else if x < 0 then NegInf else NaN)"

definition amap :: "('a \<Rightarrow> 'b) \<Rightarrow> 'a ndarray \<Rightarrow> 'b ndarray" where
  "amap f a = NDArray (ncols a) (map (map f) (rows a))"

definition elems :: "'a ndarray \<Rightarrow> 'a list" where
  "elems a = concat (rows a)"

text \<open>
  \<^verbatim>\<open>a.min()\<close> and \<^verbatim>\<open>a.max()\<close>: numpy raises ValueError on an array without elements.
\<close>

definition np_min :: "real ndarray \<Rightarrow> error + real" where
  "np_min a = (case elems a of [] \<Rightarrow> Inl (ValueError ''zero-size array'')
               | x # xs \<Rightarrow> Inr (fold min xs x))"

definition np_max :: "real ndarray \<Rightarrow> error + real" where
  "np_max a = (case elems a of [] \<Rightarrow> Inl (ValueError ''zero-size array'')
               | x # xs \<Rightarrow> Inr (fold max xs x))"

section \<open>Decibel conversion, normalization and de-normalization\<close>

text \<open>
  \<^verbatim>\<open>librosa.power_to_db(S, ref=np.max, amin=1e-10, top_db=top_db)\<close> on a real array, as
  librosa defines it: the reference is the maximum of \<open>S\<close>, values below \<open>amin\<close> are clamped,
  a negative \<open>top_db\<close> is a ParameterError, and the result is clipped from below at its
  maximum minus \<open>top_db\<close>.
\<close>

definition amin :: real where
  "amin = 1 / 10 ^ 10"

definition librosa_default_top_db :: real where
  "librosa_default_top_db = 80"

definition power_to_db :: "real ndarray \<Rightarrow> real \<Rightarrow> error + real ndarray" where
  "power_to_db S top_db =
     ebind (np_max S) (\<lambda>ref_value.
       let log_spec = amap (\<lambda>x. 10 * log 10 (max amin x) - 10 * log 10 (max amin ref_value)) S
       in if top_db < 0 then Inl ParameterError
          else ebind (np_max log_spec) (\<lambda>m. Inr (amap (\<lambda>x. max x (m - top_db)) log_spec)))"

text \<open>
  The normalization of \<^verbatim>\<open>convert_audio_to_numpy\<close> and \<^verbatim>\<open>convert_audio_to_image\<close>:
  \<^verbatim>\<open>spec = spec - spec.min(); spec = spec / np.abs(spec).max()\<close>.
\<close>

definition normalize :: "real ndarray \<Rightarrow> error + npfloat ndarray" where
  "normalize spec =
     ebind (np_min spec) (\<lambda>lo.
       let spec1 = amap (\<lambda>x. x - lo) spec
       in ebind (np_max (amap abs spec1)) (\<lambda>hi. Inr (amap (\<lambda>x. np_divide x hi) spec1)))"

text \<open>
  The de-normalization of \<^verbatim>\<open>convert_numpy_to_audio\<close>:
  \<^verbatim>\<open>settings.TOP_DB * (spec - 1)\<close>. The module \<^verbatim>\<open>settings\<close> is not part of the sources, so
  \<open>TOP_DB\<close> is a parameter. Infinities and NaN propagate as in IEEE arithmetic.
\<close>

definition denorm :: "real \<Rightarrow> npfloat \<Rightarrow> npfloat" where
  "denorm TOP_DB v =
     (case v of
        Fin x \<Rightarrow> Fin (TOP_DB * (x - 1))
      | PosInf \<Rightarrow> (if 0 < TOP_DB then PosInf else if TOP_DB < 0 then NegInf else NaN)
      | NegInf \<Rightarrow> (if 0 < TOP_DB then NegInf else if TOP_DB < 0 then PosInf else NaN)
      | NaN \<Rightarrow> NaN)"

definition denormalize :: "real \<Rightarrow> npfloat ndarray \<Rightarrow> npfloat ndarray" where
  "denormalize TOP_DB spec = amap (denorm TOP_DB) spec"

text \<open>
  The feature extraction of the two audio converters from the mel spectrogram on
  (decibels, normalization, chunking). \<^verbatim>\<open>convert_audio_to_numpy\<close> passes
  \<^verbatim>\<open>top_db=settings.TOP_DB\<close>; \<^verbatim>\<open>convert_audio_to_image\<close> passes no \<open>top_db\<close>, so librosa's
  default applies.
\<close>

definition numpy_features :: "real \<Rightarrow> real ndarray \<Rightarrow> int \<Rightarrow> bool \<Rightarrow> error + npfloat ndarray list" where
  "numpy_features TOP_DB mel chunk_size truncate =
     ebind (power_to_db mel TOP_DB) (\<lambda>spec.
       ebind (normalize spec) (\<lambda>spec. spec_to_chunks spec chunk_size truncate))"

definition image_features :: "real ndarray \<Rightarrow> int \<Rightarrow> bool \<Rightarrow> error + npfloat ndarray list" where
  "image_features mel chunk_size truncate =
     ebind (power_to_db mel librosa_default_top_db) (\<lambda>spec.
       ebind (normalize spec) (\<lambda>spec. spec_to_chunks spec chunk_size truncate))"

text \<open>\<^verbatim>\<open>chunk[::-1]\<close>: the rows in reverse order.\<close>

definition flip_rows :: "'a ndarray \<Rightarrow> 'a ndarray" where
  "flip_rows chunk = NDArray (ncols chunk) (rev (rows chunk))"

text \<open>A value of the closed unit interval: finite, at least 0 and at most 1.\<close>

definition in_unit :: "npfloat \<Rightarrow> bool" where
  "in_unit v = (case v of Fin x \<Rightarrow> 0 \<le> x \<and> x \<le> 1 | _ \<Rightarrow> False)"

section \<open>Paths and the input tree\<close>

text \<open>
  A \<^verbatim>\<open>pathlib.Path\<close> is modelled by the list of its components; \<^verbatim>\<open>Path('.')\<close> is the empty
  list. Only relative paths without \<^verbatim>\<open>..\<close> are modelled.
\<close>

type_synonym path = "string list"

text \<open>\<^verbatim>\<open>Path.name\<close>, \<^verbatim>\<open>Path.parent\<close> and \<^verbatim>\<open>Path.joinpath\<close> (an empty segment is dropped).\<close>

definition name :: "path \<Rightarrow> string" where
  "name p = (if p = [] then [] else last p)"

definition parent :: "path \<Rightarrow> path" where
  "parent p = butlast p"

definition joinpath :: "path \<Rightarrow> path \<Rightarrow> path" where
  "joinpath p q = p @ filter (\<lambda>s. s \<noteq> []) q"

text \<open>\<^verbatim>\<open>str.rfind\<close> of a character: the index of its last occurrence, if any.\<close>

fun rfind :: "char \<Rightarrow> string \<Rightarrow> nat option" where
  "rfind c [] = None"
| "rfind c (x # xs) =
     (case rfind c xs of
        Some i \<Rightarrow> Some (Suc i)
      | None \<Rightarrow> if x = c then Some 0 else None)"

text \<open>
  \<^verbatim>\<open>Path.suffix\<close> and \<^verbatim>\<open>Path.stem\<close>: the name is split at its last dot, unless that dot is
  the first or the last character of the name.
\<close>

definition suffix :: "path \<Rightarrow> string" where
  "suffix p =
     (case rfind (CHR ''.'') (name p) of
        Some i \<Rightarrow> if 0 < i \<and> i + 1 < length (name p) then drop i (name p) else []
      | None \<Rightarrow> [])"

definition stem :: "path \<Rightarrow> string" where
  "stem p =
     (case rfind (CHR ''.'') (name p) of
        Some i \<Rightarrow> if 0 < i \<and> i + 1 < length (name p) then take i (name p) else name p
      | None \<Rightarrow> name p)"

text \<open>
  \<^verbatim>\<open>Path.with_suffix('.' + fmt)\<close>: ValueError on an invalid suffix and on a path with an
  empty name; otherwise the old suffix is replaced.
\<close>

definition with_suffix :: "path \<Rightarrow> string \<Rightarrow> error + path" where
  "with_suffix p fmt =
     (if CHR ''/'' \<in> set fmt \<or> fmt = [] then Inl (ValueError ''Invalid suffix'')
      else if name p = [] then Inl (ValueError ''empty name'')
      else Inr (parent p @ [take (length (name p) - length (suffix p)) (name p) @ CHR ''.'' # fmt]))"

text \<open>\<^verbatim>\<open>path.relative_to(inp)\<close>: ValueError when \<open>inp\<close> is not a prefix of the path.\<close>

definition relative_to :: "path \<Rightarrow> path \<Rightarrow> error + path" where
  "relative_to p inp =
     (if take (length inp) p = inp then Inr (drop (length inp) p)
      else Inl (ValueError ''relative_to''))"

text \<open>
  What the file system holds at the input path: nothing (\<open>None\<close>), a regular file with its
  contents, a directory with its named entries, or something that exists and is neither.
\<close>

datatype 'c node = File 'c | Dir "(string \<times> 'c node) list" | Other

definition is_file :: "'c node option \<Rightarrow> bool" where
  "is_file tgt = (case tgt of Some (File c) \<Rightarrow> True | _ \<Rightarrow> False)"

definition is_dir :: "'c node option \<Rightarrow> bool" where
  "is_dir tgt = (case tgt of Some (Dir es) \<Rightarrow> True | _ \<Rightarrow> False)"

definition exists_at :: "'c node option \<Rightarrow> bool" where
  "exists_at tgt = (tgt \<noteq> None)"

text \<open>
  \<^verbatim>\<open>path.rglob('*')\<close>: every entry below a directory, at any depth, with its path. The
  order of the listing is the order of the entries; the callers sort it or collect a set.
\<close>

fun rglob :: "path \<Rightarrow> 'c node \<Rightarrow> (path \<times> 'c node) list" where
  "rglob p (Dir es) =
     concat (map (\<lambda>e. (p @ [fst e], snd e) # rglob (p @ [fst e]) (snd e)) es)"
| "rglob p (File c) = []"
| "rglob p Other = []"

text \<open>\<^verbatim>\<open>filter(Path.is_file, inp.rglob('*'))\<close>\<close>

definition rglob_files :: "path \<Rightarrow> 'c node \<Rightarrow> path list" where
  "rglob_files p n = map fst (filter (\<lambda>e. is_file (Some (snd e))) (rglob p n))"

text \<open>The node a path below the input path leads to, as a read of that path finds it.\<close>

fun descend :: "'c node \<Rightarrow> path \<Rightarrow> 'c node option" where
  "descend n [] = Some n"
| "descend (Dir es) (s # rest) =
     (case map_of es s of None \<Rightarrow> None | Some child \<Rightarrow> descend child rest)"
| "descend (File c) (s # rest) = None"
| "descend Other (s # rest) = None"

definition lookup :: "path \<Rightarrow> 'c node option \<Rightarrow> path \<Rightarrow> 'c node option" where
  "lookup inp tgt p =
     (case tgt of
        None \<Rightarrow> None
      | Some n \<Rightarrow> if take (length inp) p = inp then descend n (drop (length inp) p) else None)"

section \<open>Data type detection\<close>

text \<open>
  The enumeration \<^verbatim>\<open>DataType\<close>; \<^verbatim>\<open>ARRAY\<close> is an alias of \<^verbatim>\<open>NUMPY\<close> (both have the value 2).
\<close>

datatype DataType = AUDIO | NUMPY | IMAGE | UNKNOWN | AMBIGUOUS | ERROR

definition ARRAY :: DataType where
  "ARRAY = NUMPY"

definition SUPPORTED_EXTENSIONS :: "(DataType \<times> string list) list" where
  "SUPPORTED_EXTENSIONS =
     [(AUDIO, [''wav'', ''flac'', ''mp3'', ''ogg'']),
      (NUMPY, [''npy'', ''npz'']),
      (IMAGE, [''tiff''])]"

text \<open>\<^verbatim>\<open>f.suffix[1:]\<close>: the extension of a file, without its dot.\<close>

definition extension :: "path \<Rightarrow> string" where
  "extension f = drop 1 (suffix f)"

text \<open>
  The files \<^verbatim>\<open>get_data_type\<close> looks at: the path itself when it is a file, the regular files
  below it when it is a directory, none otherwise.
\<close>

definition candidate_files :: "path \<Rightarrow> 'c node option \<Rightarrow> path list" where
  "candidate_files inp tgt =
     (if is_file tgt then [inp]
      else if is_dir tgt then (case tgt of Some n \<Rightarrow> rglob_files inp n | None \<Rightarrow> [])
      else [])"

text \<open>
  The set \<^verbatim>\<open>found_types\<close> is a list without duplicates: \<open>List.insert\<close> adds an element
  that is not there yet. The two nested loops are two folds.
\<close>

definition add_types :: "path \<Rightarrow> DataType list \<Rightarrow> DataType list" where
  "add_types f found =
     fold (\<lambda>entry acc. if extension f \<in> set (snd entry) then List.insert (fst entry) acc else acc)
       SUPPORTED_EXTENSIONS found"

definition found_types :: "path list \<Rightarrow> DataType list" where
  "found_types files = fold add_types files []"

definition get_data_type :: "path \<Rightarrow> 'c node option \<Rightarrow> bool \<Rightarrow> error + DataType" where
  "get_data_type inp tgt raise_exception =
     (let found = found_types (candidate_files inp tgt) in
      if length found = 0 then
        (if raise_exception then Inl (ValueError ''Unknown source data type'') else Inr UNKNOWN)
      else if length found = 1 then Inr (hd found)
      else
        (if raise_exception then Inl (ValueError ''Ambiguous source data type'')
         else Inr AMBIGUOUS))"

text \<open>An extension that some entry of \<^verbatim>\<open>SUPPORTED_EXTENSIONS\<close> lists.\<close>

definition recognized :: "string \<Rightarrow> bool" where
  "recognized x = list_ex (\<lambda>entry. x \<in> set (snd entry)) SUPPORTED_EXTENSIONS"

text \<open>The data types whose extension list holds a given extension.\<close>

definition matched :: "string \<Rightarrow> DataType set" where
  "matched x = {fst entry | entry. entry \<in> set SUPPORTED_EXTENSIONS \<and> x \<in> set (snd entry)}"

section \<open>Parameters, library calls and effects\<close>

text \<open>
  The module \<^verbatim>\<open>settings\<close> is not part of the sources. The two constants the bodies of the
  functions read are parameters; the other constants of the module are only defaults of
  keyword arguments, and the model passes every keyword argument explicitly.
\<close>

datatype settings = Settings (settings_TOP_DB: real) (settings_N_MELS: int)

text \<open>The keyword arguments of the converters and dispatchers.\<close>

datatype kwargs = Kwargs
  (kw_sr: "int option")
  (kw_offset: real)
  (kw_duration: "real option")
  (kw_res_type: string)
  (kw_n_fft: int)
  (kw_hop_length: int)
  (kw_n_mels: int)
  (kw_chunk_size: int)
  (kw_truncate: bool)
  (kw_flip: bool)
  (kw_fmt: string)
  (kw_skip: int)

text \<open>
  The calls into natsort, librosa and numpy's file reader are parameters: \<open>'c\<close> is what a
  file holds and \<open>'a\<close> is an audio signal. A reader gets the node that the path leads to.
\<close>

datatype ('c, 'a) library = Library
  (natsorted: "path list \<Rightarrow> path list")
  (librosa_load: "'c node option \<Rightarrow> int option \<Rightarrow> real \<Rightarrow> real option \<Rightarrow> string \<Rightarrow> error + 'a \<times> int")
  (melspectrogram: "'a \<Rightarrow> int \<Rightarrow> int \<Rightarrow> int \<Rightarrow> int \<Rightarrow> error + real ndarray")
  (np_load: "'c node option \<Rightarrow> error + npfloat ndarray list")
  (db_to_power: "npfloat ndarray \<Rightarrow> real \<Rightarrow> npfloat ndarray")
  (mel_to_audio: "npfloat ndarray \<Rightarrow> int option \<Rightarrow> int \<Rightarrow> int \<Rightarrow> error + 'a")

text \<open>
  What a converter does to the output directory, in order. Console output (\<^verbatim>\<open>print\<close>,
  \<^verbatim>\<open>tqdm\<close>) is not modelled. The inputs are read as they were when the converter started.
\<close>

datatype 'a event =
    Mkdir path
  | SaveNpz path "npfloat ndarray list"
  | SaveTiff path "npfloat ndarray"
  | WriteAudio path 'a "int option"

text \<open>
  A run ends normally, with its local state and the events so far, or with an exception
  and the events up to it.
\<close>

datatype ('l, 'w) outcome = Done 'l 'w | Raised error 'w

definition finish :: "('l, 'w) outcome \<Rightarrow> (unit, 'w) outcome" where
  "finish r = (case r of Done l w \<Rightarrow> Done () w | Raised e w \<Rightarrow> Raised e w)"

section \<open>The batch loop\<close>

text \<open>
  \<^verbatim>\<open>for i, path in enumerate(paths): if i < skip: continue; ...\<close> with the body as a
  parameter; an exception of the body ends the loop.
\<close>

fun batch_loop ::
  "int \<Rightarrow> (path \<Rightarrow> 'l \<Rightarrow> 'w \<Rightarrow> ('l, 'w) outcome) \<Rightarrow> (nat \<times> path) list \<Rightarrow> 'l \<Rightarrow> 'w \<Rightarrow> ('l, 'w) outcome"
where
  "batch_loop skip body [] l w = Done l w"
| "batch_loop skip body ((i, path) # rest) l w =
     (if int i < skip then batch_loop skip body rest l w
      else (case body path l w of
              Done l' w' \<Rightarrow> batch_loop skip body rest l' w'
            | Raised e w' \<Rightarrow> Raised e w'))"


text \<open>
  The paths a converter enumerates: ValueError when the input does not exist, the regular
  files under a directory in natural-sorted order, the input path itself otherwise.
\<close>

definition input_paths :: "('c, 'a) library \<Rightarrow> path \<Rightarrow> 'c node option \<Rightarrow> error + path list" where
  "input_paths lib inp tgt =
     (if \<not> exists_at tgt then Inl (ValueError ''Input must be a valid file or directory'')
      else if is_dir tgt then
        (case tgt of Some n \<Rightarrow> Inr (natsorted lib (rglob_files inp n)) | None \<Rightarrow> Inr [])
      else Inr [inp])"

text \<open>
  \<^verbatim>\<open>convert_image_to_audio\<close> enumerates the set of the parent directories of the files
  instead (a set: each parent once).
\<close>

definition input_parents :: "('c, 'a) library \<Rightarrow> path \<Rightarrow> 'c node option \<Rightarrow> error + path list" where
  "input_parents lib inp tgt =
     (if \<not> exists_at tgt then Inl (ValueError ''Input must be a valid file or directory'')
      else if is_dir tgt then
        (case tgt of Some n \<Rightarrow> Inr (natsorted lib (remdups (map parent (rglob_files inp n))))
         | None \<Rightarrow> Inr [])
      else Inr [inp])"

text \<open>The decimal digits of \<^verbatim>\<open>f"{j}"\<close>.\<close>

definition digit_char :: "nat \<Rightarrow> char" where
  "digit_char d = ''0123456789'' ! d"

fun string_of_nat :: "nat \<Rightarrow> string" where
  "string_of_nat n =
     (if n < 10 then [digit_char n]
      else string_of_nat (n div 10) @ [digit_char (n mod 10)])"

text \<open>
  \<^verbatim>\<open>for j, chunk in enumerate(chunks): Image.fromarray(chunk, mode='F').save(output / f"{j}.tiff")\<close>
\<close>

definition save_images :: "path \<Rightarrow> npfloat ndarray list \<Rightarrow> 'a event list" where
  "save_images output chunks =
     map (\<lambda>jc. SaveTiff (joinpath output [string_of_nat (fst jc) @ ''.tiff'']) (snd jc))
       (enumerate 0 chunks)"

section \<open>The converters\<close>

text \<open>
  The output path of a converted file:
  \<^verbatim>\<open>output = out_dir.joinpath(path.relative_to(inp)); output = output.parent.joinpath(output.stem)\<close>.
\<close>

definition output_stem :: "path \<Rightarrow> path \<Rightarrow> path \<Rightarrow> error + path" where
  "output_stem out_dir path inp =
     ebind (relative_to path inp) (\<lambda>rel.
       let output = joinpath out_dir rel in Inr (joinpath (parent output) [stem output]))"

text \<open>
  The loop body of \<^verbatim>\<open>convert_audio_to_numpy\<close>. The local variable \<open>sr\<close> is rebound by
  \<^verbatim>\<open>audio, sr = librosa.load(...)\<close> and so passes from one iteration to the next.
\<close>

definition audio_to_numpy_body ::
  "('c, 'a) library \<Rightarrow> settings \<Rightarrow> path \<Rightarrow> 'c node option \<Rightarrow> path \<Rightarrow> kwargs
     \<Rightarrow> path \<Rightarrow> int option \<Rightarrow> 'a event list \<Rightarrow> (int option, 'a event list) outcome"
where
  "audio_to_numpy_body lib S inp tgt out_dir kw path sr w =
     (case librosa_load lib (lookup inp tgt path) sr (kw_offset kw) (kw_duration kw) (kw_res_type kw) of
        Inl e \<Rightarrow> Raised e w
      | Inr loaded \<Rightarrow>
          (case ebind (melspectrogram lib (fst loaded) (snd loaded) (kw_n_fft kw) (kw_hop_length kw)
                         (kw_n_mels kw))
                  (\<lambda>spec. numpy_features (settings_TOP_DB S) spec (kw_chunk_size kw) (kw_truncate kw)) of
             Inl e \<Rightarrow> Raised e w
           | Inr chunks \<Rightarrow>
               (case output_stem out_dir path inp of
                  Inl e \<Rightarrow> Raised e w
                | Inr output \<Rightarrow>
                    Done (Some (snd loaded)) (w @ [Mkdir (parent output), SaveNpz output chunks]))))"

definition convert_audio_to_numpy ::
  "('c, 'a) library \<Rightarrow> settings \<Rightarrow> path \<Rightarrow> 'c node option \<Rightarrow> path \<Rightarrow> kwargs
     \<Rightarrow> 'a event list \<Rightarrow> (unit, 'a event list) outcome"
where
  "convert_audio_to_numpy lib S inp tgt out_dir kw w =
     (case input_paths lib inp tgt of
        Inl e \<Rightarrow> Raised e w
      | Inr paths \<Rightarrow>
          finish (batch_loop (kw_skip kw) (audio_to_numpy_body lib S inp tgt out_dir kw)
                    (enumerate 0 paths) (kw_sr kw) w))"

text \<open>\<^verbatim>\<open>convert_image_to_numpy\<close> is \<^verbatim>\<open>pass\<close>: it returns None and does nothing.\<close>

definition convert_image_to_numpy ::
  "path \<Rightarrow> path \<Rightarrow> bool \<Rightarrow> int \<Rightarrow> 'a event list \<Rightarrow> (unit, 'a event list) outcome"
where
  "convert_image_to_numpy inp out_dir flip skip w = Done () w"

text \<open>The loop body of \<^verbatim>\<open>convert_audio_to_image\<close>.\<close>

definition audio_to_image_body ::
  "('c, 'a) library \<Rightarrow> path \<Rightarrow> 'c node option \<Rightarrow> path \<Rightarrow> kwargs
     \<Rightarrow> path \<Rightarrow> int option \<Rightarrow> 'a event list \<Rightarrow> (int option, 'a event list) outcome"
where
  "audio_to_image_body lib inp tgt out_dir kw path sr w =
     (case librosa_load lib (lookup inp tgt path) sr (kw_offset kw) (kw_duration kw) (kw_res_type kw) of
        Inl e \<Rightarrow> Raised e w
      | Inr loaded \<Rightarrow>
          (case ebind (melspectrogram lib (fst loaded) (snd loaded) (kw_n_fft kw) (kw_hop_length kw)
                         (kw_n_mels kw))
                  (\<lambda>spec. image_features spec (kw_chunk_size kw) (kw_truncate kw)) of
             Inl e \<Rightarrow> Raised e w
           | Inr chunks0 \<Rightarrow>
               (let chunks = (if kw_flip kw then map flip_rows chunks0 else chunks0) in
                case output_stem out_dir path inp of
                  Inl e \<Rightarrow> Raised e w
                | Inr output \<Rightarrow>
                    Done (Some (snd loaded)) (w @ Mkdir output # save_images output chunks))))"

definition convert_audio_to_image ::
  "('c, 'a) library \<Rightarrow> path \<Rightarrow> 'c node option \<Rightarrow> path \<Rightarrow> kwargs
     \<Rightarrow> 'a event list \<Rightarrow> (unit, 'a event list) outcome"
where
  "convert_audio_to_image lib inp tgt out_dir kw w =
     (case input_paths lib inp tgt of
        Inl e \<Rightarrow> Raised e w
      | Inr paths \<Rightarrow>
          finish (batch_loop (kw_skip kw) (audio_to_image_body lib inp tgt out_dir kw)
                    (enumerate 0 paths) (kw_sr kw) w))"

text \<open>
  The loop body of \<^verbatim>\<open>convert_numpy_to_image\<close>: the directory is made before the archive is
  read.
\<close>

definition numpy_to_image_body ::
  "('c, 'a) library \<Rightarrow> path \<Rightarrow> 'c node option \<Rightarrow> path \<Rightarrow> bool
     \<Rightarrow> path \<Rightarrow> unit \<Rightarrow> 'a event list \<Rightarrow> (unit, 'a event list) outcome"
where
  "numpy_to_image_body lib inp tgt out_dir flip path l w =
     (case output_stem out_dir path inp of
        Inl e \<Rightarrow> Raised e w
      | Inr output \<Rightarrow>
          (case np_load lib (lookup inp tgt path) of
             Inl e \<Rightarrow> Raised e (w @ [Mkdir output])
           | Inr npz \<Rightarrow>
               Done () (w @ Mkdir output #
                          save_images output (map (\<lambda>chunk. if flip then flip_rows chunk else chunk) npz))))"

definition convert_numpy_to_image ::
  "('c, 'a) library \<Rightarrow> path \<Rightarrow> 'c node option \<Rightarrow> path \<Rightarrow> bool \<Rightarrow> int
     \<Rightarrow> 'a event list \<Rightarrow> (unit, 'a event list) outcome"
where
  "convert_numpy_to_image lib inp tgt out_dir flip skip w =
     (case input_paths lib inp tgt of
        Inl e \<Rightarrow> Raised e w
      | Inr paths \<Rightarrow>
          finish (batch_loop skip (numpy_to_image_body lib inp tgt out_dir flip)
                    (enumerate 0 paths) () w))"

text \<open>
  The loop body of \<^verbatim>\<open>convert_numpy_to_audio\<close>:
  \<^verbatim>\<open>output = output.parent.joinpath(output.name).with_suffix(f'.{fmt}')\<close>, then the archive is
  read, its chunks are concatenated, de-normalized and inverted.
\<close>

definition numpy_to_audio_body ::
  "('c, 'a) library \<Rightarrow> settings \<Rightarrow> path \<Rightarrow> 'c node option \<Rightarrow> path \<Rightarrow> kwargs
     \<Rightarrow> path \<Rightarrow> unit \<Rightarrow> 'a event list \<Rightarrow> (unit, 'a event list) outcome"
where
  "numpy_to_audio_body lib S inp tgt out_dir kw path l w =
     (case ebind (relative_to path inp) (\<lambda>rel.
             let output = joinpath out_dir rel
             in with_suffix (joinpath (parent output) [name output]) (kw_fmt kw)) of
        Inl e \<Rightarrow> Raised e w
      | Inr output \<Rightarrow>
          (case ebind (np_load lib (lookup inp tgt path)) (\<lambda>chunks.
                  ebind (np_concatenate chunks) (\<lambda>spec.
                    mel_to_audio lib (db_to_power lib (denormalize (settings_TOP_DB S) spec) 50000)
                      (kw_sr kw) (kw_n_fft kw) (kw_hop_length kw))) of
             Inl e \<Rightarrow> Raised e (w @ [Mkdir (parent output)])
           | Inr audio \<Rightarrow>
               Done () (w @ [Mkdir (parent output), WriteAudio output audio (kw_sr kw)])))"

definition convert_numpy_to_audio ::
  "('c, 'a) library \<Rightarrow> settings \<Rightarrow> path \<Rightarrow> 'c node option \<Rightarrow> path \<Rightarrow> kwargs
     \<Rightarrow> 'a event list \<Rightarrow> (unit, 'a event list) outcome"
where
  "convert_numpy_to_audio lib S inp tgt out_dir kw w =
     (case input_paths lib inp tgt of
        Inl e \<Rightarrow> Raised e w
      | Inr paths \<Rightarrow>
          finish (batch_loop (kw_skip kw) (numpy_to_audio_body lib S inp tgt out_dir kw)
                    (enumerate 0 paths) () w))"

text \<open>
  \<^verbatim>\<open>convert_image_to_audio\<close> is unfinished in the sources: its loop only prints each path.
\<close>

definition image_to_audio_body ::
  "path \<Rightarrow> unit \<Rightarrow> 'a event list \<Rightarrow> (unit, 'a event list) outcome"
where
  "image_to_audio_body path l w = Done () w"

definition convert_image_to_audio ::
  "('c, 'a) library \<Rightarrow> path \<Rightarrow> 'c node option \<Rightarrow> path \<Rightarrow> kwargs
     \<Rightarrow> 'a event list \<Rightarrow> (unit, 'a event list) outcome"
where
  "convert_image_to_audio lib inp tgt out_dir kw w =
     (case input_parents lib inp tgt of
        Inl e \<Rightarrow> Raised e w
      | Inr paths \<Rightarrow>
          finish (batch_loop (kw_skip kw) image_to_audio_body (enumerate 0 paths) () w))"

section \<open>The dispatchers\<close>

text \<open>
  Each dispatcher detects the data type with \<open>raise_exception=True\<close> and calls the converter
  for it; for a data type without a branch it returns None. \<^verbatim>\<open>convert_to_image\<close> has no
  \<open>n_mels\<close> argument and passes none on, so \<^verbatim>\<open>convert_audio_to_image\<close> runs with its default,
  \<^verbatim>\<open>settings.N_MELS\<close>.
\<close>

definition convert_to_numpy ::
  "('c, 'a) library \<Rightarrow> settings \<Rightarrow> path \<Rightarrow> 'c node option \<Rightarrow> path \<Rightarrow> kwargs
     \<Rightarrow> 'a event list \<Rightarrow> (unit, 'a event list) outcome"
where
  "convert_to_numpy lib S inp tgt out_dir kw w =
     (case get_data_type inp tgt True of
        Inl e \<Rightarrow> Raised e w
      | Inr dtype \<Rightarrow>
          if dtype = AUDIO then convert_audio_to_numpy lib S inp tgt out_dir kw w
          else if dtype = IMAGE then convert_image_to_numpy inp out_dir (kw_flip kw) (kw_skip kw) w
          else Done () w)"

definition with_default_n_mels :: "settings \<Rightarrow> kwargs \<Rightarrow> kwargs" where
  "with_default_n_mels S kw =
     Kwargs (kw_sr kw) (kw_offset kw) (kw_duration kw) (kw_res_type kw) (kw_n_fft kw)
       (kw_hop_length kw) (settings_N_MELS S) (kw_chunk_size kw) (kw_truncate kw) (kw_flip kw)
       (kw_fmt kw) (kw_skip kw)"

definition convert_to_image ::
  "('c, 'a) library \<Rightarrow> settings \<Rightarrow> path \<Rightarrow> 'c node option \<Rightarrow> path \<Rightarrow> kwargs
     \<Rightarrow> 'a event list \<Rightarrow> (unit, 'a event list) outcome"
where
  "convert_to_image lib S inp tgt out_dir kw w =
     (case get_data_type inp tgt True of
        Inl e \<Rightarrow> Raised e w
      | Inr dtype \<Rightarrow>
          if dtype = AUDIO then
            convert_audio_to_image lib inp tgt out_dir (with_default_n_mels S kw) w
          else if dtype = NUMPY then
            convert_numpy_to_image lib inp tgt out_dir (kw_flip kw) (kw_skip kw) w
          else Done () w)"

definition convert_to_audio ::
  "('c, 'a) library \<Rightarrow> settings \<Rightarrow> path \<Rightarrow> 'c node option \<Rightarrow> path \<Rightarrow> kwargs
     \<Rightarrow> 'a event list \<Rightarrow> (unit, 'a event list) outcome"
where
  "convert_to_audio lib S inp tgt out_dir kw w =
     (case get_data_type inp tgt True of
        Inl e \<Rightarrow> Raised e w
      | Inr dtype \<Rightarrow>
          if dtype = NUMPY then convert_numpy_to_audio lib S inp tgt out_dir kw w
          else if dtype = IMAGE then convert_image_to_audio lib inp tgt out_dir kw w
          else Done () w)"

section \<open>A library instance for examples\<close>

text \<open>
  Evaluating a converter on a concrete input needs concrete library calls. This instance
  keeps the order of the paths, loads every file as the same one-sample signal at 22050 Hz,
  gives every signal the same 1-by-2 mel spectrogram, reads every archive as one 1-by-1
  chunk, and inverts every spectrogram to the same signal.
\<close>

definition example_library :: "(nat, nat) library" where
  "example_library =
     Library (\<lambda>paths. paths)
       (\<lambda>file sr offset duration res_type. Inr (0, 22050))
       (\<lambda>audio sr n_fft hop_length n_mels. Inr (NDArray 2 [[1, 0]]))
       (\<lambda>file. Inr [NDArray 1 [[Fin 1]]])
       (\<lambda>spec ref. spec)
       (\<lambda>spec sr n_fft hop_length. Inr 0)"

definition example_kwargs :: "int \<Rightarrow> kwargs" where
  "example_kwargs skip =
     Kwargs (Some 22050) 0 None ''kaiser_best'' 2048 512 128 4 False False ''wav'' skip"

section \<open>What a converted path leaves behind\<close>







section \<open>Properties of chunking and reassembly\<close>

lemma take_block: "take (k * w) r @ take w (drop (k * w) r) = take (Suc k * w) r"
proof -
  have "take (k * w + w) r = take (k * w) r @ take w (drop (k * w) r)" by (rule take_add)
  then show ?thesis by (simp add: add.commute)
qed

lemma hcat_prefix_block:
  "hcat (NDArray (k * w) (map (take (k * w)) rs)) (col_block (NDArray n rs) (k * w) w)
     = NDArray (Suc k * w) (map (take (Suc k * w)) rs)"
  by (simp add: hcat_def col_block_def map2_map_map take_block del: mult_Suc) simp

lemma foldl_hcat_blocks:
  "foldl hcat (NDArray (1 * w) (map (take (1 * w)) rs))
       (map (\<lambda>j. col_block (NDArray n rs) (j * w) w) [Suc 0 ..< Suc k])
     = NDArray (Suc k * w) (map (take (Suc k * w)) rs)"
proof (induction k)
  case 0
  show ?case by simp
next
  case (Suc k)
  have "[Suc 0 ..< Suc (Suc k)] = [Suc 0 ..< Suc k] @ [Suc k]" by simp
  then show ?case
    using Suc.IH hcat_prefix_block [of "Suc k" w rs n] by (simp del: upt_Suc mult_Suc)
qed

lemma nrows_col_block: "nrows (col_block a i w) = nrows a"
  by (simp add: nrows_def col_block_def)

lemma concat_blocks:
  assumes "0 < m"
  shows "np_concatenate (map (\<lambda>j. col_block (NDArray n rs) (j * w) w) [0 ..< m])
           = Inr (NDArray (m * w) (map (take (m * w)) rs))"
proof -
  obtain k where m: "m = Suc k" using assms by (cases m) auto
  have split: "[0 ..< Suc k] = 0 # [Suc 0 ..< Suc k]" by (simp add: upt_conv_Cons del: upt_Suc)
  have first: "col_block (NDArray n rs) 0 w = NDArray (1 * w) (map (take (1 * w)) rs)"
    by (simp add: col_block_def)
  have same: "list_all (\<lambda>d. nrows d = nrows (col_block (NDArray n rs) 0 w))
                (map (\<lambda>j. col_block (NDArray n rs) (j * w) w) [Suc 0 ..< Suc k])"
    by (simp add: list_all_iff nrows_col_block)
  have "np_concatenate (col_block (NDArray n rs) 0 w # map (\<lambda>j. col_block (NDArray n rs) (j * w) w) [Suc 0 ..< Suc k])
         = Inr (foldl hcat (col_block (NDArray n rs) 0 w) (map (\<lambda>j. col_block (NDArray n rs) (j * w) w) [Suc 0 ..< Suc k]))"
    using same by (simp add: np_concatenate_def)
  moreover have "map (\<lambda>j. col_block (NDArray n rs) (j * w) w) [0 ..< m]
      = col_block (NDArray n rs) 0 w # map (\<lambda>j. col_block (NDArray n rs) (j * w) w) [Suc 0 ..< Suc k]"
    unfolding m split by simp
  ultimately show ?thesis
    using foldl_hcat_blocks [of w rs n k] by (simp only: first m)
qed

lemma wf_take_all: "wf (NDArray n rs) \<Longrightarrow> map (take n) rs = rs"
  by (induction rs) (auto simp: wf_def)

lemma np_split_ok:
  assumes "0 < w" "ncols ary = m * w" "0 < m"
  shows "np_split ary (int m) = Inr (map (\<lambda>j. col_block ary (j * w) w) [0 ..< m])"
  using assms by (simp add: np_split_def Let_def)

lemma wf_col_block:
  assumes "wf a" "i + w \<le> ncols a"
  shows "wf (col_block a i w)"
  using assms by (auto simp: wf_def col_block_def list_all_iff)

lemma slice_cols_to_nat:
  "r \<le> ncols spec \<Longrightarrow> 0 < r \<Longrightarrow>
     slice_cols_to spec (- int r) = NDArray (ncols spec - r) (map (take (ncols spec - r)) (rows spec))"
  by (simp add: slice_cols_to_def py_stop_def Let_def nat_diff_distrib')

lemma slice_cols_to_zero:
  "slice_cols_to spec 0 = NDArray 0 (map (take 0) (rows spec))"
  by (simp add: slice_cols_to_def py_stop_def)

lemma spec_to_chunks_truncate_exact:
  assumes "0 < c" "c \<le> ncols spec" "ncols spec mod c = 0"
  shows "spec_to_chunks spec (int c) True = Inl ZeroDivisionError"
proof -
  have "int (ncols spec) mod int c = 0"
    using assms(3) by (metis of_nat_mod of_nat_0)
  then show ?thesis
    using assms(1,2)
    by (simp add: spec_to_chunks_def ebind_def slice_cols_to_zero np_split_def)
qed

lemma spec_to_chunks_truncate_rem:
  assumes "0 < c" "c \<le> ncols spec" "ncols spec mod c \<noteq> 0"
  shows "spec_to_chunks spec (int c) True =
           Inr (map (\<lambda>j. col_block (NDArray (ncols spec div c * c)
                                      (map (take (ncols spec div c * c)) (rows spec))) (j * c) c)
                    [0 ..< ncols spec div c])"
proof -
  let ?w = "ncols spec"
  let ?r = "?w mod c"
  let ?m = "?w div c"
  have r: "int ?w mod int c = int ?r" by (simp add: zmod_int)
  have rle: "?r \<le> ?w" by simp
  have rpos: "0 < ?r" using assms(3) by simp
  have width: "?w - ?r = ?m * c" by (simp add: minus_mod_eq_div_mult)
  have m: "0 < ?m" using assms(1,2) by (simp add: div_greater_zero_iff)
  have sl: "slice_cols_to spec (- int ?r) = NDArray (?m * c) (map (take (?m * c)) (rows spec))"
    using slice_cols_to_nat [OF rle rpos] by (simp only: width)
  have sec: "int (?m * c) div int c = int ?m" using assms(1) by (simp flip: of_nat_div)
  have sp: "np_split (NDArray (?m * c) (map (take (?m * c)) (rows spec))) (int ?m)
           = Inr (map (\<lambda>j. col_block (NDArray (?m * c) (map (take (?m * c)) (rows spec))) (j * c) c)
                  [0 ..< ?m])"
    by (rule np_split_ok [OF assms(1) _ m]) simp
  have "spec_to_chunks spec (int c) True =
          np_split (slice_cols_to spec (- int ?r)) (int (ncols (slice_cols_to spec (- int ?r))) div int c)"
    using assms(1,2) by (simp add: spec_to_chunks_def ebind_def Let_def r)
  also have "\<dots> = np_split (NDArray (?m * c) (map (take (?m * c)) (rows spec))) (int ?m)"
    unfolding sl using sec by (simp only: ndarray.sel)
  finally show ?thesis using sp by simp
qed

lemma spec_to_chunks_pad:
  assumes "0 < c" "c \<le> ncols spec"
  shows "spec_to_chunks spec (int c) False =
           Inr (map (\<lambda>j. col_block (NDArray (Suc (ncols spec div c) * c)
                   (map (\<lambda>r. r @ replicate (c - ncols spec mod c) 0) (rows spec))) (j * c) c)
                    [0 ..< Suc (ncols spec div c)])"
proof -
  let ?w = "ncols spec"
  let ?r = "?w mod c"
  let ?m = "?w div c"
  let ?p = "NDArray (Suc ?m * c) (map (\<lambda>r. r @ replicate (c - ?r) 0) (rows spec))"
  have r: "int ?w mod int c = int ?r" by (simp add: zmod_int)
  have rlt: "?r < c" using assms(1) by simp
  have k: "int c - int ?r = int (c - ?r)" using rlt by simp
  have width: "?w + (c - ?r) = Suc ?m * c"
  proof -
    have "?m * c + ?r = ?w" by simp
    moreover have "Suc ?m * c = ?m * c + c" by simp
    ultimately show ?thesis using rlt by linarith
  qed
  have pad: "np_pad_right spec (int c - int ?r) = Inr ?p"
    unfolding k by (simp add: np_pad_right_def width del: mult_Suc)
  have sec: "int (Suc ?m * c) div int c = int (Suc ?m)"
    using assms(1) by (simp flip: of_nat_div del: mult_Suc)
  have sp: "np_split ?p (int (Suc ?m)) = Inr (map (\<lambda>j. col_block ?p (j * c) c) [0 ..< Suc ?m])"
    by (rule np_split_ok [OF assms(1)]) simp_all
  have "spec_to_chunks spec (int c) False =
          ebind (np_pad_right spec (int c - int ?r)) (\<lambda>spec'. np_split spec' (int (ncols spec') div int c))"
    using assms(1,2) by (simp add: spec_to_chunks_def Let_def r)
  also have "\<dots> = np_split ?p (int (Suc ?m))"
    unfolding pad ebind_def using sec by (simp only: ndarray.sel sum.case)
  finally show ?thesis using sp by simp
qed

lemma next_multiple_nat:
  assumes "0 < c" "w mod c \<noteq> 0"
  shows "next_multiple w (int c) = Suc (w div c) * c"
proof -
  let ?r = "w mod c"
  have w: "int w = int (w div c) * int c + int ?r"
    by (metis of_nat_add of_nat_mult div_mult_mod_eq)
  have r: "1 \<le> int ?r" "int ?r < int c" using assms by simp_all
  have e: "int w + int c - 1 = (int ?r - 1) + (int (w div c) + 1) * int c"
    using w by (simp add: algebra_simps)
  have small: "(int ?r - 1) div int c = 0"
    using r by (intro div_pos_pos_trivial) linarith+
  have cz: "int c \<noteq> 0" using assms(1) by simp
  have "(int w + int c - 1) div int c = (int ?r - 1) div int c + (int (w div c) + 1)"
    unfolding e using div_mult_self1 [OF cz, of "int ?r - 1" "int (w div c) + 1"] by linarith
  then have "(int w + int c - 1) div int c = int (Suc (w div c))"
    using small by simp
  then have "(int w + int c - 1) div int c * int c = int (Suc (w div c) * c)"
    by (simp only: of_nat_mult)
  then show ?thesis
    unfolding next_multiple_def by (simp only: nat_int)
qed

lemma next_multiple_least:
  assumes "0 < c"
  shows "int (next_multiple w c) mod c = 0 \<and> w \<le> next_multiple w c \<and>
         int (next_multiple w c) < int w + c"
proof -
  let ?q = "(int w + c - 1) div c"
  have q0: "0 \<le> ?q" using assms by (simp add: pos_imp_zdiv_nonneg_iff)
  have n: "int (next_multiple w c) = ?q * c"
    using q0 assms by (simp add: next_multiple_def)
  have eq: "?q * c + (int w + c - 1) mod c = int w + c - 1" by simp
  have m: "0 \<le> (int w + c - 1) mod c" "(int w + c - 1) mod c < c" using assms by simp_all
  have "int w \<le> ?q * c" using eq m by linarith
  moreover have "?q * c < int w + c" using eq m by linarith
  ultimately show ?thesis using n by simp
qed

lemma wf_rows_length: "wf a \<Longrightarrow> r \<in> set (rows a) \<Longrightarrow> length r = ncols a"
  by (simp add: wf_def list_all_iff)

text \<open>
  Claim C1. For a 2-D array whose width is at least \<open>chunk_size \<ge> 1\<close>, the claim is that
  \<^verbatim>\<open>spec_to_chunks\<close> returns chunks that all have width \<open>chunk_size\<close>, for both values of
  \<open>truncate\<close>. The code does so in every case but one: with \<open>truncate\<close> set and a width that
  is an exact multiple of \<open>chunk_size\<close>, the slice \<^verbatim>\<open>spec[:, :-0]\<close> is empty, the number of
  sections is 0 and \<^verbatim>\<open>np.split\<close> raises ZeroDivisionError.
\<close>

theorem spec_to_chunks_fixed_width:
  assumes "wf spec" and "1 \<le> chunk_size" and "chunk_size \<le> int (ncols spec)"
  shows "if truncate \<and> int (ncols spec) mod chunk_size = 0
         then spec_to_chunks spec chunk_size truncate = Inl ZeroDivisionError
         else (\<exists>chunks. spec_to_chunks spec chunk_size truncate = Inr chunks \<and> chunks \<noteq> [] \<and>
                 list_all (\<lambda>c. ncols c = nat chunk_size \<and> nrows c = nrows spec \<and> wf c) chunks)"
proof -
  obtain c where c: "chunk_size = int c" "0 < c" "c \<le> ncols spec"
    using assms(2,3) by (metis nat_0_le nat_le_iff zero_less_nat_eq less_le_trans zero_less_one order_trans zero_le_one)
  let ?w = "ncols spec" let ?m = "?w div c"
  have m: "0 < ?m" using c by (simp add: div_greater_zero_iff)
  have modc: "int ?w mod int c = 0 \<longleftrightarrow> ?w mod c = 0"
    by (metis of_nat_mod of_nat_eq_0_iff)
  have mc: "?m * c \<le> ?w" by simp
  show ?thesis
  proof (cases truncate)
    case True
    show ?thesis
    proof (cases "?w mod c = 0")
      case z: True
      then show ?thesis
        using True spec_to_chunks_truncate_exact [OF c(2,3) z] by (simp add: c(1) modc)
    next
      case nz: False
      let ?t = "NDArray (?m * c) (map (take (?m * c)) (rows spec))"
      have wft: "wf ?t"
        using assms(1) mc by (auto simp: wf_def list_all_iff)
      have each: "ncols (col_block ?t (j * c) c) = c \<and> nrows (col_block ?t (j * c) c) = nrows spec
                   \<and> wf (col_block ?t (j * c) c)" if "j < ?m" for j
      proof -
        have "Suc j * c \<le> ?m * c" using that by (simp only: mult_le_mono1 Suc_leI)
        then have "j * c + c \<le> ncols ?t" by simp
        then have "wf (col_block ?t (j * c) c)" by (rule wf_col_block [OF wft])
        then show ?thesis by (simp add: col_block_def nrows_def)
      qed
      have ne: "map (\<lambda>j. col_block ?t (j * c) c) [0 ..< ?m] \<noteq> []" using m by simp
      show ?thesis
        using True nz ne each spec_to_chunks_truncate_rem [OF c(2,3) nz]
        by (simp add: c(1) modc list_all_iff)
    qed
  next
    case False
    let ?p = "NDArray (Suc ?m * c) (map (\<lambda>r. r @ replicate (c - ?w mod c) 0) (rows spec))"
    have len: "?w + (c - ?w mod c) = Suc ?m * c"
    proof -
      have "?m * c + ?w mod c = ?w" by simp
      moreover have "Suc ?m * c = ?m * c + c" by simp
      moreover have "?w mod c < c" using c(2) by simp
      ultimately show ?thesis by linarith
    qed
    have wfp: "wf ?p"
      using assms(1) len by (auto simp: wf_def list_all_iff simp del: mult_Suc)
    have each: "ncols (col_block ?p (j * c) c) = c \<and> nrows (col_block ?p (j * c) c) = nrows spec
                 \<and> wf (col_block ?p (j * c) c)" if "j < Suc ?m" for j
    proof -
      have "Suc j * c \<le> Suc ?m * c" using that by (simp only: mult_le_mono1 Suc_leI)
      then have "j * c + c \<le> ncols ?p" by simp
      then have "wf (col_block ?p (j * c) c)" by (rule wf_col_block [OF wfp])
      then show ?thesis by (simp add: col_block_def nrows_def)
    qed
    show ?thesis
      using False each spec_to_chunks_pad [OF c(2,3)]
      by (simp add: c(1) list_all_iff del: mult_Suc upt_Suc)
  qed
qed

theorem spec_to_chunks_fixed_width_witness:
  "wf (NDArray 4 [[1, 2, 3, 4 :: int]]) \<and> (1::int) \<le> 2 \<and> (2::int) \<le> int (ncols (NDArray 4 [[1, 2, 3, 4 :: int]]))
   \<and> spec_to_chunks (NDArray 4 [[1, 2, 3, 4 :: int]]) 2 True = Inl ZeroDivisionError"
proof -
  have h1: "wf (NDArray 4 [[1, 2, 3, 4 :: int]])" by (simp add: wf_def)
  have h2: "(1::int) \<le> 2" by simp
  have h3: "(2::int) \<le> int (ncols (NDArray 4 [[1, 2, 3, 4 :: int]]))" by simp
  show ?thesis
    using h1 h3 spec_to_chunks_fixed_width [OF h1 h2 h3, of True] by simp
qed

lemma zero_pad_to_self: "wf spec \<Longrightarrow> zero_pad_to spec (ncols spec) = spec"
  by (cases spec) (simp add: zero_pad_to_def)

lemma reassemble_pad:
  assumes "wf spec" "0 < c" "c \<le> ncols spec"
  shows "ebind (spec_to_chunks spec (int c) False) reassemble
           = Inr (zero_pad_to spec (Suc (ncols spec div c) * c))"
proof -
  let ?w = "ncols spec" let ?m = "?w div c"
  let ?rs = "map (\<lambda>r. r @ replicate (c - ?w mod c) 0) (rows spec)"
  let ?p = "NDArray (Suc ?m * c) ?rs"
  have len: "?w + (c - ?w mod c) = Suc ?m * c"
  proof -
    have "?m * c + ?w mod c = ?w" by simp
    moreover have "Suc ?m * c = ?m * c + c" by simp
    moreover have "?w mod c < c" using assms(2) by simp
    ultimately show ?thesis by linarith
  qed
  have wfp: "wf ?p"
    using assms(1) len by (auto simp: wf_def list_all_iff simp del: mult_Suc)
  have pad: "Suc ?m * c - ?w = c - ?w mod c" using len by linarith
  have "ebind (spec_to_chunks spec (int c) False) reassemble
          = np_concatenate (map (\<lambda>j. col_block ?p (j * c) c) [0 ..< Suc ?m])"
    by (simp only: spec_to_chunks_pad [OF assms(2,3)] ebind_def sum.case reassemble_def)
  also have "\<dots> = Inr (NDArray (Suc ?m * c) (map (take (Suc ?m * c)) ?rs))"
    by (rule concat_blocks) simp
  also have "map (take (Suc ?m * c)) ?rs = ?rs"
    by (rule wf_take_all [OF wfp])
  finally show ?thesis
    by (simp only: zero_pad_to_def pad)
qed

text \<open>
  Claim C2, as amended. For a 2-D array and \<open>chunk_size \<ge> 1\<close>, concatenating the chunks of
  \<^verbatim>\<open>spec_to_chunks(spec, chunk_size, truncate=False)\<close> along the last axis succeeds and gives
  the array followed by zeros only, so the array is a prefix of the result. A width below
  \<open>chunk_size\<close> gives the array back unchanged; a width of at least \<open>chunk_size\<close> that is
  not a multiple of it gives the array padded to the smallest multiple of \<open>chunk_size\<close>
  that is at least the width.
\<close>

theorem reassemble_chunks_zero_padded:
  assumes "wf spec" and "1 \<le> chunk_size"
  shows "\<exists>W. ebind (spec_to_chunks spec chunk_size False) reassemble = Inr (zero_pad_to spec W)
            \<and> ncols spec \<le> W
            \<and> (int (ncols spec) < chunk_size \<longrightarrow> W = ncols spec)
            \<and> (chunk_size \<le> int (ncols spec) \<and> int (ncols spec) mod chunk_size \<noteq> 0
                 \<longrightarrow> W = next_multiple (ncols spec) chunk_size)"
proof (cases "chunk_size \<le> int (ncols spec)")
  case False
  have "ebind (spec_to_chunks spec chunk_size False) reassemble = Inr spec"
    using False by (simp add: spec_to_chunks_def ebind_def reassemble_def np_concatenate_def)
  then show ?thesis
    using False zero_pad_to_self [OF assms(1)] by auto
next
  case True
  obtain c where c: "chunk_size = int c" "0 < c" "c \<le> ncols spec"
    using assms(2) True by (metis nat_0_le nat_le_iff zero_less_nat_eq less_le_trans zero_less_one order_trans zero_le_one)
  let ?W = "Suc (ncols spec div c) * c"
  have modc: "int (ncols spec) mod int c = 0 \<longleftrightarrow> ncols spec mod c = 0"
    by (metis of_nat_mod of_nat_eq_0_iff)
  have "ncols spec div c * c \<le> ncols spec" by simp
  have le: "ncols spec \<le> ?W"
  proof -
    have "ncols spec div c * c + ncols spec mod c = ncols spec" by simp
    moreover have "ncols spec mod c < c" using c(2) by simp
    moreover have "?W = ncols spec div c * c + c" by simp
    ultimately show ?thesis by linarith
  qed
  have nm: "ncols spec mod c \<noteq> 0 \<Longrightarrow> ?W = next_multiple (ncols spec) (int c)"
    using next_multiple_nat [OF c(2)] by simp
  show ?thesis
  proof (intro exI [of _ ?W] conjI impI)
    show "ebind (spec_to_chunks spec chunk_size False) reassemble = Inr (zero_pad_to spec ?W)"
      unfolding c(1) by (rule reassemble_pad [OF assms(1) c(2,3)])
    show "ncols spec \<le> ?W" by (rule le)
    show "?W = ncols spec" if "int (ncols spec) < chunk_size"
      using that True by simp
    show "?W = next_multiple (ncols spec) chunk_size"
      if "chunk_size \<le> int (ncols spec) \<and> int (ncols spec) mod chunk_size \<noteq> 0"
      using that nm unfolding c(1) modc by blast
  qed
qed

theorem reassemble_chunks_zero_padded_witness:
  "wf (NDArray 3 [[1, 2, 3 :: int]]) \<and> (1::int) \<le> 2
    \<and> ebind (spec_to_chunks (NDArray 3 [[1, 2, 3 :: int]]) 2 False) reassemble = Inr (NDArray 4 [[1, 2, 3, 0]])"
proof -
  let ?A = "NDArray 3 [[1, 2, 3 :: int]]"
  have h1: "wf ?A" by (simp add: wf_def)
  have h2: "(1::int) \<le> 2" by simp
  have c: "2 \<le> int (ncols ?A) \<and> int (ncols ?A) mod 2 \<noteq> 0" by simp
  have nm: "next_multiple (ncols ?A) 2 = 4" by (simp add: next_multiple_def)
  from reassemble_chunks_zero_padded [OF h1 h2]
  obtain W where a: "ebind (spec_to_chunks ?A 2 False) reassemble = Inr (zero_pad_to ?A W)"
    and b: "2 \<le> int (ncols ?A) \<and> int (ncols ?A) mod 2 \<noteq> 0 \<longrightarrow> W = next_multiple (ncols ?A) 2"
    by (elim exE conjE)
  from b c have "W = next_multiple (ncols ?A) 2" by (rule mp)
  then have W: "W = 4" by (simp only: nm)
  have "zero_pad_to ?A 4 = NDArray 4 [[1, 2, 3, 0]]" by (simp add: zero_pad_to_def)
  then show ?thesis using a h1 unfolding W by simp
qed

text \<open>
  Claim C2 as stated fails: a 1-column array with \<open>chunk_size = 2\<close> is returned as the single
  chunk it is, and the reassembled array has width 1, not 2.
\<close>

theorem reassemble_not_padded_to_multiple:
  "ebind (spec_to_chunks (NDArray 1 [[5 :: int]]) 2 False) reassemble
     \<noteq> Inr (zero_pad_to (NDArray 1 [[5]]) (next_multiple 1 2))"
  by (simp add: spec_to_chunks_def ebind_def reassemble_def np_concatenate_def zero_pad_to_def
        next_multiple_def)

section \<open>Properties of normalization and de-normalization\<close>

lemma elems_amap: "elems (amap f a) = map f (elems a)"
  by (simp add: elems_def amap_def map_concat)

lemma np_min_Min: "elems a \<noteq> [] \<Longrightarrow> np_min a = Inr (Min (set (elems a)))"
  by (cases "elems a") (simp_all add: np_min_def Min.set_eq_fold [symmetric])

lemma np_max_Max: "elems a \<noteq> [] \<Longrightarrow> np_max a = Inr (Max (set (elems a)))"
  by (cases "elems a") (simp_all add: np_max_def Max.set_eq_fold [symmetric])

lemma np_min_empty: "elems a = [] \<Longrightarrow> np_min a = Inl (ValueError ''zero-size array'')"
  by (simp add: np_min_def)

lemma Max_shift:
  fixes es :: "real list"
  assumes "es \<noteq> []"
  shows "Max (set (map (\<lambda>x. \<bar>x - Min (set es)\<bar>) es)) = Max (set es) - Min (set es)"
proof -
  let ?lo = "Min (set es)"
  have abs: "\<bar>x - ?lo\<bar> = x - ?lo" if "x \<in> set es" for x
  proof -
    have "?lo \<le> x" using that by (intro Min_le) simp_all
    then show ?thesis by simp
  qed
  have "set (map (\<lambda>x. \<bar>x - ?lo\<bar>) es) = (\<lambda>x. x - ?lo) ` set es"
    using abs by (auto simp: image_iff)
  moreover have "Max ((\<lambda>x. x - ?lo) ` set es) = Max (set es) - ?lo"
    using assms by (intro mono_Max_commute [symmetric]) (auto simp: mono_def)
  ultimately show ?thesis by simp
qed

lemma normalize_eq:
  assumes "elems spec \<noteq> []"
  shows "normalize spec =
           Inr (amap (\<lambda>x. np_divide (x - Min (set (elems spec)))
                                      (Max (set (elems spec)) - Min (set (elems spec)))) spec)"
proof -
  let ?lo = "Min (set (elems spec))"
  let ?s1 = "amap (\<lambda>x. x - ?lo) spec"
  have e1: "elems (amap abs ?s1) = map (\<lambda>x. \<bar>x - ?lo\<bar>) (elems spec)"
    by (simp add: elems_amap comp_def)
  have ne: "elems (amap abs ?s1) \<noteq> []" using assms by (simp add: e1)
  have hi: "np_max (amap abs ?s1) = Inr (Max (set (elems spec)) - ?lo)"
    using np_max_Max [OF ne] Max_shift [OF assms] by (simp only: e1)
  have "amap (\<lambda>x. np_divide x (Max (set (elems spec)) - ?lo)) ?s1
          = amap (\<lambda>x. np_divide (x - ?lo) (Max (set (elems spec)) - ?lo)) spec"
    by (simp add: amap_def comp_def)
  then show ?thesis
    unfolding normalize_def by (simp add: np_min_Min [OF assms] ebind_def Let_def hi)
qed

text \<open>
  Claim C4, as amended. For an array with two different entries, the normalization
  (subtract the minimum, divide by the maximum absolute value) raises nothing and gives an
  array of the same shape whose entries are all finite and lie in \<open>[0, 1]\<close>, the value 1
  being attained.
\<close>

theorem normalize_unit_range:
  assumes "x \<in> set (elems spec)" and "y \<in> set (elems spec)" and "x \<noteq> y"
  shows "\<exists>n. normalize spec = Inr n \<and> list_all in_unit (elems n) \<and> Fin 1 \<in> set (elems n)
              \<and> ncols n = ncols spec \<and> nrows n = nrows spec"
proof -
  let ?es = "elems spec"
  let ?lo = "Min (set ?es)" and ?hi = "Max (set ?es)"
  have ne: "?es \<noteq> []" using assms(1) by auto
  have lohi: "?lo < ?hi"
  proof -
    have "?lo \<le> x" "?lo \<le> y" using assms(1,2) by (simp_all add: Min_le)
    moreover have "x \<le> ?hi" "y \<le> ?hi" using assms(1,2) by (simp_all add: Max_ge)
    ultimately show ?thesis using assms(3) by linarith
  qed
  let ?f = "\<lambda>x. np_divide (x - ?lo) (?hi - ?lo)"
  let ?n = "amap ?f spec"
  have f: "?f z = Fin ((z - ?lo) / (?hi - ?lo))" for z
    using lohi by (simp add: np_divide_def)
  have unit: "in_unit (?f z)" if "z \<in> set ?es" for z
  proof -
    have "?lo \<le> z" "z \<le> ?hi" using that by (simp_all add: Min_le Max_ge)
    then show ?thesis using lohi by (simp add: f in_unit_def)
  qed
  have top: "?hi \<in> set ?es" using ne by (intro Max_in) simp_all
  have "Fin 1 = ?f ?hi" using lohi by (simp add: f)
  then have one: "Fin 1 \<in> set (elems ?n)"
    unfolding elems_amap set_map using top by (rule image_eqI)
  have all: "list_all in_unit (elems ?n)"
    using unit by (simp add: elems_amap list_all_iff)
  have shape: "ncols ?n = ncols spec \<and> nrows ?n = nrows spec"
    by (simp add: amap_def nrows_def)
  show ?thesis
    by (intro exI [of _ ?n] conjI normalize_eq [OF ne] all one shape [THEN conjunct1] shape [THEN conjunct2])
qed

theorem normalize_unit_range_witness:
  "(0::real) \<in> set (elems (NDArray 2 [[0, -40]])) \<and> (-40::real) \<in> set (elems (NDArray 2 [[0, -40]]))
    \<and> (0::real) \<noteq> -40
    \<and> normalize (NDArray 2 [[0, -40]]) = Inr (NDArray 2 [[Fin 1, Fin 0]])
    \<and> list_all in_unit (elems (NDArray 2 [[Fin 1, Fin 0]]))"
proof -
  have h1: "(0::real) \<in> set (elems (NDArray 2 [[0, -40]]))" by (simp add: elems_def)
  have h2: "(-40::real) \<in> set (elems (NDArray 2 [[0, -40]]))" by (simp add: elems_def)
  have h3: "(0::real) \<noteq> -40" by simp
  have n: "normalize (NDArray 2 [[0, -40]]) = Inr (NDArray 2 [[Fin 1, Fin 0]])"
    by (simp add: normalize_def np_min_def np_max_def elems_def amap_def ebind_def np_divide_def)
  from normalize_unit_range [OF h1 h2 h3]
  have "list_all in_unit (elems (NDArray 2 [[Fin 1, Fin 0]]))"
    unfolding n by (elim exE conjE) (simp only: sum.inject)
  then show ?thesis using h1 h2 h3 n by (intro conjI)
qed

text \<open>
  Claim C4 as stated fails on a constant array, such as the decibel spectrogram of
  silence: after the minimum is subtracted every entry is 0, so is the divisor, and every
  quotient is NaN.
\<close>

theorem normalize_constant_is_nan:
  "power_to_db (NDArray 2 [[0, 0]]) 80 = Inr (NDArray 2 [[0, 0]])
    \<and> normalize (NDArray 2 [[0, 0]]) = Inr (NDArray 2 [[NaN, NaN]])
    \<and> \<not> list_all in_unit (elems (NDArray 2 [[NaN, NaN]]))"
  by (simp add: power_to_db_def normalize_def np_min_def np_max_def elems_def amap_def ebind_def
        np_divide_def amin_def in_unit_def)

lemma np_max_Inr: "np_max a = Inr m \<Longrightarrow> elems a \<noteq> [] \<and> m = Max (set (elems a))"
  by (cases "elems a") (simp_all add: np_max_def Max.set_eq_fold [symmetric])

lemma np_min_Inr: "np_min a = Inr m \<Longrightarrow> elems a \<noteq> [] \<and> m = Min (set (elems a))"
  by (cases "elems a") (simp_all add: np_min_def Min.set_eq_fold [symmetric])

lemma Max_mono_image:
  fixes f :: "real \<Rightarrow> real"
  assumes "mono f" "es \<noteq> []"
  shows "Max (set (map f es)) = f (Max (set es))"
  using assms by (simp add: mono_Max_commute)

lemma power_to_db_max_zero:
  assumes "power_to_db S T = Inr d"
  shows "elems d \<noteq> [] \<and> Max (set (elems d)) = 0 \<and> 0 \<le> T"
proof -
  obtain r where r: "np_max S = Inr r"
    using assms by (cases "np_max S") (simp_all add: power_to_db_def ebind_def)
  let ?g = "\<lambda>x. 10 * log 10 (max amin x) - 10 * log 10 (max amin r)"
  let ?L = "amap ?g S"
  have ne: "elems S \<noteq> []" and rmax: "r = Max (set (elems S))"
    using np_max_Inr [OF r] by simp_all
  have T: "0 \<le> T"
    using assms r by (simp add: power_to_db_def ebind_def Let_def split: if_splits)
  have apos: "0 < amin" by (simp add: amin_def)
  have g: "mono ?g"
  proof (rule monoI)
    fix x y :: real assume "x \<le> y"
    then have "max amin x \<le> max amin y" by simp
    moreover have "0 < max amin x" using apos by simp
    ultimately have "log 10 (max amin x) \<le> log 10 (max amin y)" by simp
    then show "?g x \<le> ?g y" by simp
  qed
  have neL: "elems ?L \<noteq> []" using ne by (simp add: elems_amap)
  have "Max (set (elems ?L)) = ?g (Max (set (elems S)))"
    unfolding elems_amap by (rule Max_mono_image [OF g ne])
  then have maxL: "Max (set (elems ?L)) = 0" by (simp add: rmax)
  have mL: "np_max ?L = Inr 0" using np_max_Max [OF neL] maxL by simp
  let ?h = "\<lambda>x. max x (0 - T)"
  have d: "d = amap ?h ?L"
    using assms r T mL by (simp add: power_to_db_def ebind_def Let_def)
  have h: "mono ?h" by (rule monoI) simp
  have "Max (set (elems d)) = ?h (Max (set (elems ?L)))"
    unfolding d elems_amap [of ?h] by (rule Max_mono_image [OF h neL])
  then have "Max (set (elems d)) = 0" using T by (simp add: maxL)
  moreover have "elems d \<noteq> []"
    unfolding d elems_amap [of ?h] using neL by simp
  ultimately show ?thesis using T by simp
qed

lemma denormalize_normalize:
  assumes "elems d \<noteq> []" and "Max (set (elems d)) = 0" and "Min (set (elems d)) = - T" and "0 < T"
  shows "ebind (normalize d) (\<lambda>n. Inr (denormalize T n)) = Inr (amap Fin d)"
proof -
  have "denorm T (np_divide (x - - T) (0 - - T)) = Fin x" for x
    using assms(4) by (simp add: np_divide_def denorm_def field_simps)
  then have "amap (denorm T) (amap (\<lambda>x. np_divide (x - - T) (0 - - T)) d) = amap Fin d"
    by (simp add: amap_def comp_def)
  then show ?thesis
    by (simp only: normalize_eq [OF assms(1)] assms(2,3) ebind_def sum.case denormalize_def)
qed

text \<open>
  Claim C3, as amended. Let \<open>d\<close> be the decibel spectrogram that \<^verbatim>\<open>power_to_db\<close> returns with
  \<open>top_db = TOP_DB > 0\<close> and the maximum as reference. When the minimum of \<open>d\<close> is
  \<open>- TOP_DB\<close>, that is when the clipping at \<open>top_db\<close> below the maximum is reached,
  the map \<open>v \<mapsto> TOP_DB * (v - 1)\<close> applied to the normalized array gives \<open>d\<close> back
  (in exact arithmetic).
\<close>

theorem denormalize_inverts_at_full_range:
  assumes "power_to_db S TOP_DB = Inr d" and "np_min d = Inr (- TOP_DB)" and "0 < TOP_DB"
  shows "ebind (normalize d) (\<lambda>n. Inr (denormalize TOP_DB n)) = Inr (amap Fin d)"
proof -
  have m: "elems d \<noteq> []" "Max (set (elems d)) = 0"
    using power_to_db_max_zero [OF assms(1)] by simp_all
  have "Min (set (elems d)) = - TOP_DB"
    using np_min_Inr [OF assms(2)] by simp
  then show ?thesis
    by (rule denormalize_normalize [OF m _ assms(3)])
qed

lemma log10_inv_pow: "log 10 (1 / 10 ^ n) = - real n"
  by (simp add: log_divide log_nat_power)

theorem denormalize_inverts_at_full_range_witness:
  "power_to_db (NDArray 2 [[1, 1 / 10 ^ 8]]) 80 = Inr (NDArray 2 [[0, - 80]])
   \<and> np_min (NDArray 2 [[0, - 80]]) = Inr (- 80) \<and> (0::real) < 80
   \<and> ebind (normalize (NDArray 2 [[0, - 80]])) (\<lambda>n. Inr (denormalize 80 n))
        = Inr (NDArray 2 [[Fin 0, Fin (- 80)]])"
proof -
  have h1: "power_to_db (NDArray 2 [[1, 1 / 10 ^ 8]]) 80 = Inr (NDArray 2 [[0, - 80]])"
    using log10_inv_pow [of 8]
    by (simp add: power_to_db_def np_max_def elems_def amap_def ebind_def amin_def)
  have h2: "np_min (NDArray 2 [[0, - 80]]) = Inr (- 80)"
    by (simp add: np_min_def elems_def)
  have h3: "(0::real) < 80" by simp
  have "amap Fin (NDArray 2 [[0, - 80]]) = NDArray 2 [[Fin 0, Fin (- 80)]]"
    by (simp add: amap_def)
  then show ?thesis
    using h1 h2 h3 denormalize_inverts_at_full_range [OF h1 h2 h3] by simp
qed

text \<open>
  Claim C3 as stated fails when the spectrogram spans less than \<open>TOP_DB\<close> decibels: the
  power spectrogram \<open>[[1, 10\<^sup>-\<^sup>4]]\<close> has the decibel values \<open>[[0, -40]]\<close>, which
  normalize to \<open>[[1, 0]]\<close> and de-normalize with \<open>TOP_DB = 80\<close> to \<open>[[0, -80]]\<close>.
\<close>

theorem denormalize_does_not_invert:
  "power_to_db (NDArray 2 [[1, 1 / 10 ^ 4]]) 80 = Inr (NDArray 2 [[0, - 40]])
   \<and> ebind (normalize (NDArray 2 [[0, - 40]])) (\<lambda>n. Inr (denormalize 80 n))
        = Inr (NDArray 2 [[Fin 0, Fin (- 80)]])
   \<and> NDArray 2 [[Fin 0, Fin (- 80)]] \<noteq> amap Fin (NDArray 2 [[0, - 40]])"
proof -
  have h1: "power_to_db (NDArray 2 [[1, 1 / 10 ^ 4]]) 80 = Inr (NDArray 2 [[0, - 40]])"
    using log10_inv_pow [of 4]
    by (simp add: power_to_db_def np_max_def elems_def amap_def ebind_def amin_def)
  have h2: "ebind (normalize (NDArray 2 [[0, - 40]])) (\<lambda>n. Inr (denormalize 80 n))
        = Inr (NDArray 2 [[Fin 0, Fin (- 80)]])"
    by (simp add: normalize_def np_min_def np_max_def elems_def amap_def ebind_def np_divide_def
          denormalize_def denorm_def)
  have h3: "NDArray 2 [[Fin 0, Fin (- 80)]] \<noteq> amap Fin (NDArray 2 [[0, - 40]])"
    by (simp add: amap_def)
  show ?thesis using h1 h2 h3 by (intro conjI)
qed

text \<open>
  The two audio converters differ in one argument: \<^verbatim>\<open>convert_audio_to_numpy\<close> passes
  \<^verbatim>\<open>top_db=settings.TOP_DB\<close> to \<^verbatim>\<open>power_to_db\<close>, \<^verbatim>\<open>convert_audio_to_image\<close> passes none and
  so runs with librosa's default of 80. With \<open>TOP_DB = 80\<close> they compute the same chunks.
\<close>

lemma features_agree_at_default_top_db:
  assumes "TOP_DB = librosa_default_top_db"
  shows "numpy_features TOP_DB mel chunk_size truncate = image_features mel chunk_size truncate"
  using assms by (simp add: numpy_features_def image_features_def)

lemma power_to_db_example:
  "0 \<le> T \<Longrightarrow> power_to_db (NDArray 3 [[1, 1 / 10 ^ 5, 1 / 10 ^ 9]]) T
     = Inr (NDArray 3 [[max 0 (- T), max (- 50) (- T), max (- 90) (- T)]])"
  using log10_inv_pow [of 5] log10_inv_pow [of 9]
  by (simp add: power_to_db_def np_max_def elems_def amap_def ebind_def amin_def)

lemma power_to_db_example_80:
  "power_to_db (NDArray 3 [[1, 1 / 10 ^ 5, 1 / 10 ^ 9]]) 80 = Inr (NDArray 3 [[0, - 50, - 80]])"
  using power_to_db_example [of 80] by simp

lemma power_to_db_example_100:
  "power_to_db (NDArray 3 [[1, 1 / 10 ^ 5, 1 / 10 ^ 9]]) 100 = Inr (NDArray 3 [[0, - 50, - 90]])"
  using power_to_db_example [of 100] by simp

lemma features_example_80:
  "ebind (Inr (NDArray 3 [[0, - 50, - 80 :: real]])) (\<lambda>spec.
       ebind (normalize spec) (\<lambda>spec. spec_to_chunks spec 4 False))
    = Inr [NDArray 3 [[Fin 1, Fin (3 / 8), Fin 0]]]"
  by (simp add: normalize_def np_min_def np_max_def
          elems_def amap_def ebind_def np_divide_def spec_to_chunks_def)

lemma features_example_100:
  "ebind (Inr (NDArray 3 [[0, - 50, - 90 :: real]])) (\<lambda>spec.
       ebind (normalize spec) (\<lambda>spec. spec_to_chunks spec 4 False))
    = Inr [NDArray 3 [[Fin 1, Fin (4 / 9), Fin 0]]]"
  by (simp add: normalize_def np_min_def np_max_def
          elems_def amap_def ebind_def np_divide_def spec_to_chunks_def)

lemma features_agree_example:
  "(80::real) = librosa_default_top_db
   \<and> numpy_features 80 (NDArray 3 [[1, 1 / 10 ^ 5, 1 / 10 ^ 9]]) 4 False
       = Inr [NDArray 3 [[Fin 1, Fin (3 / 8), Fin 0]]]
   \<and> image_features (NDArray 3 [[1, 1 / 10 ^ 5, 1 / 10 ^ 9]]) 4 False
       = Inr [NDArray 3 [[Fin 1, Fin (3 / 8), Fin 0]]]"
proof -
  have h: "(80::real) = librosa_default_top_db" by (simp add: librosa_default_top_db_def)
  have n: "numpy_features 80 (NDArray 3 [[1, 1 / 10 ^ 5, 1 / 10 ^ 9]]) 4 False
             = Inr [NDArray 3 [[Fin 1, Fin (3 / 8), Fin 0]]]"
    unfolding numpy_features_def power_to_db_example_80 by (rule features_example_80)
  have "image_features (NDArray 3 [[1, 1 / 10 ^ 5, 1 / 10 ^ 9]]) 4 False
             = Inr [NDArray 3 [[Fin 1, Fin (3 / 8), Fin 0]]]"
    using features_agree_at_default_top_db [OF h, of "NDArray 3 [[1, 1 / 10 ^ 5, 1 / 10 ^ 9]]" 4 False]
    by (simp only: n)
  then show ?thesis using h n by (intro conjI)
qed

text \<open>
  Claim C7. The claim is that, for the same audio and the same parameter values,
  \<^verbatim>\<open>convert_audio_to_numpy\<close> and \<^verbatim>\<open>convert_audio_to_image\<close> compute the same normalized
  chunks. The code does not: \<^verbatim>\<open>convert_audio_to_image\<close> leaves out the
  \<^verbatim>\<open>top_db=settings.TOP_DB\<close> that \<^verbatim>\<open>convert_audio_to_numpy\<close> passes to \<^verbatim>\<open>power_to_db\<close>. With
  \<open>TOP_DB = 100\<close>, the mel spectrogram \<open>[[1, 10\<^sup>-\<^sup>5, 10\<^sup>-\<^sup>9]]\<close>, which spans 90
  decibels, is not clipped by the first converter and is clipped at \<open>-80\<close> by the second,
  and the normalized chunks differ.
\<close>

theorem features_differ_at_other_top_db:
  "numpy_features 100 (NDArray 3 [[1, 1 / 10 ^ 5, 1 / 10 ^ 9]]) 4 False
     = Inr [NDArray 3 [[Fin 1, Fin (4 / 9), Fin 0]]]
   \<and> image_features (NDArray 3 [[1, 1 / 10 ^ 5, 1 / 10 ^ 9]]) 4 False
     = Inr [NDArray 3 [[Fin 1, Fin (3 / 8), Fin 0]]]
   \<and> numpy_features 100 (NDArray 3 [[1, 1 / 10 ^ 5, 1 / 10 ^ 9]]) 4 False
     \<noteq> image_features (NDArray 3 [[1, 1 / 10 ^ 5, 1 / 10 ^ 9]]) 4 False"
proof -
  have n: "numpy_features 100 (NDArray 3 [[1, 1 / 10 ^ 5, 1 / 10 ^ 9]]) 4 False
     = Inr [NDArray 3 [[Fin 1, Fin (4 / 9), Fin 0]]]"
    unfolding numpy_features_def power_to_db_example_100 by (rule features_example_100)
  have i: "image_features (NDArray 3 [[1, 1 / 10 ^ 5, 1 / 10 ^ 9]]) 4 False
     = Inr [NDArray 3 [[Fin 1, Fin (3 / 8), Fin 0]]]"
    unfolding image_features_def librosa_default_top_db_def power_to_db_example_80
    by (rule features_example_80)
  have "numpy_features 100 (NDArray 3 [[1, 1 / 10 ^ 5, 1 / 10 ^ 9]]) 4 False
     \<noteq> image_features (NDArray 3 [[1, 1 / 10 ^ 5, 1 / 10 ^ 9]]) 4 False"
    unfolding n i by simp
  then show ?thesis using n i by (intro conjI)
qed

section \<open>Properties of data type detection\<close>

lemma fold_insert_set:
  "set (fold (\<lambda>entry acc. if P entry then List.insert (fst entry) acc else acc) L found)
     = set found \<union> {fst entry | entry. entry \<in> set L \<and> P entry}"
  by (induction L arbitrary: found) auto

lemma fold_insert_distinct:
  "distinct found \<Longrightarrow>
     distinct (fold (\<lambda>entry acc. if P entry then List.insert (fst entry) acc else acc) L found)"
  by (induction L arbitrary: found) auto

lemma set_add_types: "set (add_types f found) = set found \<union> matched (extension f)"
  unfolding add_types_def matched_def by (rule fold_insert_set)

lemma distinct_add_types: "distinct found \<Longrightarrow> distinct (add_types f found)"
  unfolding add_types_def by (rule fold_insert_distinct)

lemma set_fold_add_types:
  "set (fold add_types files found) = set found \<union> (\<Union>x \<in> set (map extension files). matched x)"
  by (induction files arbitrary: found) (auto simp: set_add_types)

lemma distinct_fold_add_types:
  "distinct found \<Longrightarrow> distinct (fold add_types files found)"
  by (induction files arbitrary: found) (auto simp: distinct_add_types)

lemma set_found_types:
  "set (found_types files) = (\<Union>x \<in> set (map extension files). matched x)"
  unfolding found_types_def by (simp add: set_fold_add_types)

lemma distinct_found_types: "distinct (found_types files)"
  unfolding found_types_def by (rule distinct_fold_add_types) simp

lemma found_types_cong:
  assumes "set (map extension fs1) = set (map extension fs2)"
  shows "length (found_types fs1) = length (found_types fs2)
         \<and> (length (found_types fs1) = 1 \<longrightarrow> hd (found_types fs1) = hd (found_types fs2))"
proof -
  let ?a = "found_types fs1" and ?b = "found_types fs2"
  have s: "set ?a = set ?b" using assms by (simp only: set_found_types)
  have len: "length ?a = length ?b"
    using s distinct_found_types [of fs1] distinct_found_types [of fs2]
    by (metis distinct_card)
  have "hd ?a = hd ?b" if "length ?a = 1"
  proof -
    from that obtain x where x: "?a = [x]" by (auto simp: length_Suc_conv)
    from that len obtain y where y: "?b = [y]" by (auto simp: length_Suc_conv)
    show ?thesis using s unfolding x y by simp
  qed
  then show ?thesis using len by blast
qed

lemma decide_cong:
  assumes "length b = length a" and "length a = 1 \<Longrightarrow> hd b = hd a"
  shows "(if length a = 0 then X else if length a = 1 then Inr (hd a) else Y)
       = (if length b = 0 then X else if length b = 1 then Inr (hd b) else Y)"
  using assms by (cases "length a = 1") simp_all

text \<open>
  Claim C8. The result of \<^verbatim>\<open>get_data_type\<close> is determined by the set of extensions of
  the files it looks at: two inputs whose files carry the same set of extensions get the
  same data type, and the same exception with the same \<open>raise_exception\<close>. File contents
  (the argument of \<open>File\<close>) do not enter: the two inputs may even hold contents of
  different types.
\<close>

theorem get_data_type_extension_only:
  assumes "set (map extension (candidate_files inp1 tgt1))
             = set (map extension (candidate_files inp2 tgt2))"
  shows "get_data_type inp1 tgt1 raise_exception = get_data_type inp2 tgt2 raise_exception"
proof -
  let ?a = "found_types (candidate_files inp1 tgt1)"
  let ?b = "found_types (candidate_files inp2 tgt2)"
  have len: "length ?b = length ?a"
    and hd: "length ?a = 1 \<Longrightarrow> hd ?b = hd ?a"
    using found_types_cong [OF assms] by simp_all
  show ?thesis
    unfolding get_data_type_def Let_def by (rule decide_cong [OF len hd])
qed

theorem get_data_type_extension_only_witness:
  "set (map extension (candidate_files [''in''] (Some (Dir [(''a.wav'', File (0::nat))]))))
     = set (map extension (candidate_files [''data'']
              (Some (Dir [(''d'', Dir [(''b.wav'', File True)]), (''c.wav'', File False)]))))
   \<and> get_data_type [''in''] (Some (Dir [(''a.wav'', File (0::nat))])) True = Inr AUDIO
   \<and> get_data_type [''data'']
        (Some (Dir [(''d'', Dir [(''b.wav'', File True)]), (''c.wav'', File False)])) True = Inr AUDIO"
proof -
  have h: "set (map extension (candidate_files [''in''] (Some (Dir [(''a.wav'', File (0::nat))]))))
     = set (map extension (candidate_files [''data'']
              (Some (Dir [(''d'', Dir [(''b.wav'', File True)]), (''c.wav'', File False)]))))"
    by (simp add: candidate_files_def is_file_def is_dir_def rglob_files_def extension_def
          suffix_def name_def)
  have g: "get_data_type [''in''] (Some (Dir [(''a.wav'', File (0::nat))])) True = Inr AUDIO"
    by (simp add: get_data_type_def candidate_files_def is_file_def is_dir_def rglob_files_def
          found_types_def add_types_def SUPPORTED_EXTENSIONS_def extension_def suffix_def name_def)
  show ?thesis
    using h g get_data_type_extension_only [OF h, of True] by simp
qed

lemma matched_unrecognized: "\<not> recognized x \<Longrightarrow> matched x = {}"
  by (auto simp: recognized_def matched_def list_ex_iff)

lemma found_types_unrecognized:
  assumes "list_all (\<lambda>f. \<not> recognized (extension f)) files"
  shows "found_types files = []"
proof -
  have "set (found_types files) = {}"
    using assms by (auto simp: set_found_types list_all_iff matched_unrecognized)
  then show ?thesis by simp
qed

lemma candidate_files_absent: "\<not> is_file tgt \<Longrightarrow> \<not> is_dir tgt \<Longrightarrow> candidate_files inp tgt = []"
  by (simp add: candidate_files_def)

text \<open>
  Claim C10. For a path that is neither an existing file nor an existing directory,
  \<^verbatim>\<open>get_data_type\<close> returns \<open>UNKNOWN\<close> without raising when \<open>raise_exception\<close> is false and
  raises ValueError when it is true; and any input none of whose files has a recognized
  extension gets the same result.
\<close>

theorem get_data_type_nonexistent:
  assumes "\<not> is_file tgt" and "\<not> is_dir tgt"
  shows "get_data_type inp tgt False = Inr UNKNOWN
       \<and> get_data_type inp tgt True = Inl (ValueError ''Unknown source data type'')
       \<and> (list_all (\<lambda>f. \<not> recognized (extension f)) (candidate_files inp' tgt')
            \<longrightarrow> get_data_type inp' tgt' raise_exception = get_data_type inp tgt raise_exception)"
proof -
  have a: "found_types (candidate_files inp tgt) = []"
    using candidate_files_absent [OF assms] by (simp add: found_types_def)
  have b: "get_data_type inp' tgt' raise_exception = get_data_type inp tgt raise_exception"
    if "list_all (\<lambda>f. \<not> recognized (extension f)) (candidate_files inp' tgt')"
    using found_types_unrecognized [OF that] a by (simp add: get_data_type_def)
  show ?thesis using a b by (simp add: get_data_type_def)
qed

theorem get_data_type_nonexistent_witness:
  "\<not> is_file (None :: nat node option) \<and> \<not> is_dir (None :: nat node option)
   \<and> list_all (\<lambda>f. \<not> recognized (extension f))
        (candidate_files [''in''] (Some (Dir [(''notes.txt'', File (0::nat)), (''sub'', Dir [])])))
   \<and> get_data_type [''missing''] (None :: nat node option) False = Inr UNKNOWN
   \<and> get_data_type [''missing''] (None :: nat node option) True
        = Inl (ValueError ''Unknown source data type'')
   \<and> get_data_type [''in''] (Some (Dir [(''notes.txt'', File (0::nat)), (''sub'', Dir [])])) False
        = Inr UNKNOWN"
proof -
  have h1: "\<not> is_file (None :: nat node option)" by (simp add: is_file_def)
  have h2: "\<not> is_dir (None :: nat node option)" by (simp add: is_dir_def)
  have h3: "list_all (\<lambda>f. \<not> recognized (extension f))
        (candidate_files [''in''] (Some (Dir [(''notes.txt'', File (0::nat)), (''sub'', Dir [])])))"
    by (simp add: candidate_files_def is_file_def is_dir_def rglob_files_def extension_def
          suffix_def name_def recognized_def SUPPORTED_EXTENSIONS_def)
  show ?thesis
    using h1 h2 h3
      get_data_type_nonexistent [OF h1 h2, of "[''missing'']" "[''in'']"
        "Some (Dir [(''notes.txt'', File (0::nat)), (''sub'', Dir [])])" False]
    by simp
qed

section \<open>Properties of the converters and dispatchers\<close>




























text \<open>
  Claim C9. \<^verbatim>\<open>convert_image_to_numpy\<close> returns None and leaves the output as it is, for every
  input and every argument; so does \<^verbatim>\<open>convert_to_numpy\<close> on an input whose detected data type
  is \<open>IMAGE\<close>.
\<close>

theorem image_to_numpy_is_noop:
  "convert_image_to_numpy inp out_dir flip skip w = Done () w
   \<and> (get_data_type inp tgt True = Inr IMAGE
        \<longrightarrow> convert_to_numpy lib S inp tgt out_dir kw w = Done () w)"
  by (simp add: convert_image_to_numpy_def convert_to_numpy_def)

lemma example_image_input:
  "get_data_type [''in''] (Some (Dir [(''song'', Dir [(''0.tiff'', File (0::nat))])])) True = Inr IMAGE"
  by (simp add: get_data_type_def candidate_files_def is_file_def is_dir_def rglob_files_def
        found_types_def add_types_def SUPPORTED_EXTENSIONS_def extension_def suffix_def name_def)

theorem image_to_numpy_is_noop_witness:
  "get_data_type [''in''] (Some (Dir [(''song'', Dir [(''0.tiff'', File (0::nat))])])) True = Inr IMAGE
   \<and> convert_to_numpy example_library (Settings 80 128) [''in'']
        (Some (Dir [(''song'', Dir [(''0.tiff'', File 0)])])) [''out''] (example_kwargs 0)
        [Mkdir [''out'']]
      = Done () [Mkdir [''out'']]"
  using example_image_input
    image_to_numpy_is_noop [of "[''in'']" "[''out'']" _ _ "[Mkdir [''out'']]"
      "Some (Dir [(''song'', Dir [(''0.tiff'', File (0::nat))])])" example_library "Settings 80 128"
      "example_kwargs 0"]
  by simp

lemma matched_supported: "matched x \<subseteq> {AUDIO, NUMPY, IMAGE}"
  by (auto simp: matched_def SUPPORTED_EXTENSIONS_def)

lemma found_types_supported: "set (found_types files) \<subseteq> {AUDIO, NUMPY, IMAGE}"
  unfolding set_found_types using matched_supported by blast

lemma found_types_single:
  assumes "length (found_types files) = 1"
  shows "found_types files = [AUDIO] \<or> found_types files = [NUMPY] \<or> found_types files = [IMAGE]"
proof -
  from assms obtain t where t: "found_types files = [t]" by (auto simp: length_Suc_conv)
  then have "t \<in> {AUDIO, NUMPY, IMAGE}" using found_types_supported [of files] by simp
  then show ?thesis using t by auto
qed

lemma get_data_type_raise:
  "get_data_type inp tgt True =
     (if length (found_types (candidate_files inp tgt)) = 0
        then Inl (ValueError ''Unknown source data type'')
      else if length (found_types (candidate_files inp tgt)) = 1
        then Inr (hd (found_types (candidate_files inp tgt)))
      else Inl (ValueError ''Ambiguous source data type''))"
  by (simp add: get_data_type_def Let_def)

text \<open>
  Claim C6, as amended. When the number of data types matched under the input path is 0 or
  more than 1, each dispatcher raises the ValueError of the detection, before any converter
  runs (the events are as they were). When exactly one data type is matched, it is
  \<open>AUDIO\<close>, \<open>NUMPY\<close> or \<open>IMAGE\<close>, and the dispatcher does what the converter from
  that data type to its own target does, and nothing when the data type is the target
  itself; an exception of that converter, a ValueError included, is then the dispatcher's.
\<close>

theorem dispatch_on_detected_type:
  "(length (found_types (candidate_files inp tgt)) \<noteq> 1 \<longrightarrow>
      (\<exists>msg. convert_to_numpy lib S inp tgt out_dir kw w = Raised (ValueError msg) w
            \<and> convert_to_image lib S inp tgt out_dir kw w = Raised (ValueError msg) w
            \<and> convert_to_audio lib S inp tgt out_dir kw w = Raised (ValueError msg) w))
   \<and> (length (found_types (candidate_files inp tgt)) = 1 \<longrightarrow>
          found_types (candidate_files inp tgt) = [AUDIO]
        \<or> found_types (candidate_files inp tgt) = [NUMPY]
        \<or> found_types (candidate_files inp tgt) = [IMAGE])
   \<and> (found_types (candidate_files inp tgt) = [AUDIO] \<longrightarrow>
          convert_to_numpy lib S inp tgt out_dir kw w
            = convert_audio_to_numpy lib S inp tgt out_dir kw w
        \<and> convert_to_image lib S inp tgt out_dir kw w
            = convert_audio_to_image lib inp tgt out_dir (with_default_n_mels S kw) w
        \<and> convert_to_audio lib S inp tgt out_dir kw w = Done () w)
   \<and> (found_types (candidate_files inp tgt) = [NUMPY] \<longrightarrow>
          convert_to_numpy lib S inp tgt out_dir kw w = Done () w
        \<and> convert_to_image lib S inp tgt out_dir kw w
            = convert_numpy_to_image lib inp tgt out_dir (kw_flip kw) (kw_skip kw) w
        \<and> convert_to_audio lib S inp tgt out_dir kw w
            = convert_numpy_to_audio lib S inp tgt out_dir kw w)
   \<and> (found_types (candidate_files inp tgt) = [IMAGE] \<longrightarrow>
          convert_to_numpy lib S inp tgt out_dir kw w
            = convert_image_to_numpy inp out_dir (kw_flip kw) (kw_skip kw) w
        \<and> convert_to_image lib S inp tgt out_dir kw w = Done () w
        \<and> convert_to_audio lib S inp tgt out_dir kw w
            = convert_image_to_audio lib inp tgt out_dir kw w)"
proof (intro conjI impI)
  assume "length (found_types (candidate_files inp tgt)) \<noteq> 1"
  then show "\<exists>msg. convert_to_numpy lib S inp tgt out_dir kw w = Raised (ValueError msg) w
            \<and> convert_to_image lib S inp tgt out_dir kw w = Raised (ValueError msg) w
            \<and> convert_to_audio lib S inp tgt out_dir kw w = Raised (ValueError msg) w"
    by (simp add: convert_to_numpy_def convert_to_image_def convert_to_audio_def
          get_data_type_raise)
next
  assume "length (found_types (candidate_files inp tgt)) = 1"
  then show "found_types (candidate_files inp tgt) = [AUDIO]
        \<or> found_types (candidate_files inp tgt) = [NUMPY]
        \<or> found_types (candidate_files inp tgt) = [IMAGE]"
    by (rule found_types_single)
qed (simp_all add: convert_to_numpy_def convert_to_image_def convert_to_audio_def
       get_data_type_raise)

lemma example_found_none:
  "found_types (candidate_files [''missing''] (None :: nat node option)) = []"
  by (simp add: candidate_files_def is_file_def is_dir_def found_types_def)

lemma example_found_numpy:
  "found_types (candidate_files [''song.npz''] (Some (File (0::nat)))) = [NUMPY]"
  by (simp add: candidate_files_def is_file_def is_dir_def
        found_types_def add_types_def SUPPORTED_EXTENSIONS_def extension_def suffix_def name_def)

theorem dispatch_on_detected_type_witness:
  "length (found_types (candidate_files [''missing''] (None :: nat node option))) \<noteq> 1
   \<and> (\<exists>msg. convert_to_numpy example_library (Settings 80 128) [''missing''] None [''out'']
                (example_kwargs 0) [] = Raised (ValueError msg) [])
   \<and> found_types (candidate_files [''song.npz''] (Some (File (0::nat)))) = [NUMPY]
   \<and> convert_to_numpy example_library (Settings 80 128) [''song.npz''] (Some (File 0)) [''out'']
         (example_kwargs 0) [] = Done () []
   \<and> convert_to_image example_library (Settings 80 128) [''song.npz''] (Some (File 0)) [''out'']
         (example_kwargs 0) []
       = Done () [Mkdir [''out''], SaveTiff [''out'', ''0.tiff''] (NDArray 1 [[Fin 1]])]"
proof -
  have h0: "length (found_types (candidate_files [''missing''] (None :: nat node option))) \<noteq> 1"
    by (simp add: example_found_none)
  have c0: "\<exists>msg. convert_to_numpy example_library (Settings 80 128) [''missing''] None [''out'']
                (example_kwargs 0) [] = Raised (ValueError msg) []"
    using h0 dispatch_on_detected_type [of "[''missing'']" "None :: nat node option" example_library
        "Settings 80 128" "[''out'']" "example_kwargs 0" "[]"]
    by blast
  note d = dispatch_on_detected_type [of "[''song.npz'']" "Some (File (0::nat))" example_library
        "Settings 80 128" "[''out'']" "example_kwargs 0" "[]"]
  have c1: "convert_to_numpy example_library (Settings 80 128) [''song.npz''] (Some (File 0)) [''out'']
         (example_kwargs 0) [] = Done () []"
    using d example_found_numpy by blast
  have "convert_to_image example_library (Settings 80 128) [''song.npz''] (Some (File 0)) [''out'']
         (example_kwargs 0) []
      = convert_numpy_to_image example_library [''song.npz''] (Some (File 0)) [''out'']
          (kw_flip (example_kwargs 0)) (kw_skip (example_kwargs 0)) []"
    using d example_found_numpy by blast
  also have "\<dots> = Done () [Mkdir [''out''], SaveTiff [''out'', ''0.tiff''] (NDArray 1 [[Fin 1]])]"
    by (simp add: convert_numpy_to_image_def input_paths_def exists_at_def is_dir_def
          enumerate_eq_zip numpy_to_image_body_def output_stem_def relative_to_def ebind_def
          joinpath_def parent_def stem_def name_def example_library_def example_kwargs_def
          save_images_def digit_char_def finish_def)
  finally show ?thesis using h0 c0 c1 example_found_numpy by (intro conjI)
qed

text \<open>
  Claim C6 as stated fails in its "only if": \<^verbatim>\<open>convert_to_audio('song.npz', '.')\<close> on a
  single archive matches exactly one data type, and still raises ValueError, from
  \<^verbatim>\<open>with_suffix\<close> on the output path \<^verbatim>\<open>Path('.')\<close>, whose name is empty.
\<close>

theorem dispatcher_value_error_with_one_type:
  "found_types (candidate_files [''song.npz''] (Some (File (0::nat)))) = [NUMPY]
   \<and> convert_to_audio example_library (Settings 80 128) [''song.npz''] (Some (File 0)) []
        (example_kwargs 0) []
      = Raised (ValueError ''empty name'') []"
proof -
  have "get_data_type [''song.npz''] (Some (File (0::nat))) True = Inr NUMPY"
    by (simp add: get_data_type_def example_found_numpy)
  then have "convert_to_audio example_library (Settings 80 128) [''song.npz''] (Some (File 0)) []
        (example_kwargs 0) []
      = Raised (ValueError ''empty name'') []"
    by (simp add: convert_to_audio_def convert_numpy_to_audio_def input_paths_def exists_at_def
          is_dir_def enumerate_eq_zip numpy_to_audio_body_def relative_to_def ebind_def
          joinpath_def parent_def name_def with_suffix_def example_kwargs_def finish_def)
  then show ?thesis using example_found_numpy by (intro conjI)
qed

end
